theory Spec2Isabelle
  imports Main "HOL-Library.Word"
begin

section \<open>The E-AC-3 bridge (eac3-bridge.c): data model\<close>

text \<open>
  The bridge is a thin layer of C over libavcodec. Its own code is embedded here; the
  library it calls is not part of the repository, so the result of each codec call
  (return code, produced frame or packet, success of an allocation) is a field of an
  environment record, and the theorems hold for every environment. The decoder hands
  its codec context to \<open>avcodec_send_packet\<close> and \<open>avcodec_receive_frame\<close> and reads
  it afterwards (lines 82 and 85), so what each of the two calls leaves in the context
  is a field of the environment too. The encoder never reads its context after
  creation; \<open>avcodec_open2\<close> answers with its code and the frame size.

  Conventions of the embedding:
  \<^item> a C \<open>int\<close> is a HOL \<open>int\<close>, and the index expression \<open>i * channels + ch\<close> is
    exact. Signed overflow is undefined in C; a run of the model that returns has every
    index inside a buffer, so below the size of any buffer the 32-bit target can hold,
    and no index of such a run overflows;
  \<^item> a \<open>float\<close> is its 32-bit pattern: the bridge only copies samples;
  \<^item> a pointer to a library object is an \<open>option\<close> (\<open>None\<close> is \<open>NULL\<close>); a buffer is
    the list of its cells, so a buffer has a capacity, and an access outside it, like a
    dereference of \<open>NULL\<close>, is a \<open>fault\<close>, a branch of the model (\<open>Inl\<close>);
  \<^item> the caller's input bytes are never read by the bridge, only handed to the codec:
    the input buffer is its address.
\<close>

type_synonym float32 = "32 word"
type_synonym byte = "8 word"
type_synonym addr = nat

datatype fault = NullDeref | OutOfBounds

record AVCodecContext =
  ctx_sample_rate :: int
  ctx_nb_channels :: int
  ctx_bit_rate :: int
  ctx_sample_fmt :: int
  ctx_frame_size :: int
  ctx_is_open :: bool

record AVFrame =
  nb_samples :: int
  nb_channels :: int
  frame_sample_rate :: int
  frame_format :: int
  extended_data :: "float32 list list"

record AVPacket =
  pkt_data :: addr
  pkt_size :: int

record decoder_state =
  ctx :: "AVCodecContext option"
  frame :: "AVFrame option"
  packet :: "AVPacket option"

record encoder_state =
  enc_ctx :: "AVCodecContext option"
  enc_frame :: "AVFrame option"
  enc_packet :: "AVPacket option"

text \<open>The three cells behind \<open>out_frames\<close>, \<open>out_sample_rate\<close> and \<open>out_channels\<close>.\<close>

record out_params =
  out_frames :: int
  out_sample_rate :: int
  out_channels :: int

subsection \<open>Bounds-checked array access\<close>

definition rd :: "'a list \<Rightarrow> int \<Rightarrow> fault + 'a" where
  "rd xs k = (if 0 \<le> k \<and> k < int (length xs) then Inr (xs ! nat k) else Inl OutOfBounds)"

definition wr :: "'a list \<Rightarrow> int \<Rightarrow> 'a \<Rightarrow> fault + 'a list" where
  "wr xs k v = (if 0 \<le> k \<and> k < int (length xs) then Inr (xs[nat k := v]) else Inl OutOfBounds)"

subsection \<open>The library calls of the decoder\<close>

text \<open>
  \<open>av_packet_unref\<close> and \<open>av_frame_unref\<close> reset the holder to its blank state, as
  libavcodec documents; what the codec answers to a call is the environment's.
\<close>

text \<open>A blank frame has the eight plane pointers of \<open>AV_NUM_DATA_POINTERS\<close>, all
  \<open>NULL\<close>: a plane without storage is a plane of capacity 0.\<close>

definition blank_packet :: AVPacket where
  "blank_packet = \<lparr>pkt_data = 0, pkt_size = 0\<rparr>"

definition blank_frame :: AVFrame where
  "blank_frame = \<lparr>nb_samples = 0, nb_channels = 0, frame_sample_rate = 0,
     frame_format = -1, extended_data = replicate 8 []\<rparr>"

definition av_packet_unref :: "AVPacket \<Rightarrow> AVPacket" where
  "av_packet_unref p = blank_packet"

definition av_frame_unref :: "AVFrame \<Rightarrow> AVFrame" where
  "av_frame_unref f = blank_frame"

record decode_env =
  send_packet_ret :: "AVPacket \<Rightarrow> int"
  send_packet_ctx :: "AVCodecContext \<Rightarrow> AVCodecContext"
  receive_frame_ret :: int
  receive_frame_ctx :: "AVCodecContext \<Rightarrow> AVCodecContext"
  received_frame :: AVFrame

text \<open>\<open>avcodec_send_packet(ctx, packet)\<close>: the code, and the context as the call leaves
  it.\<close>

definition avcodec_send_packet ::
  "decode_env \<Rightarrow> AVCodecContext option \<Rightarrow> AVPacket \<Rightarrow> int \<times> AVCodecContext option" where
  "avcodec_send_packet env c p = (send_packet_ret env p, map_option (send_packet_ctx env) c)"

text \<open>\<open>avcodec_receive_frame(ctx, frame)\<close> unreferences the frame first; on success the
  frame holds the decoded frame. The context is as the call leaves it.\<close>

definition avcodec_receive_frame ::
  "decode_env \<Rightarrow> AVCodecContext option \<Rightarrow> AVFrame option
     \<Rightarrow> int \<times> AVCodecContext option \<times> AVFrame option" where
  "avcodec_receive_frame env c f =
     (receive_frame_ret env,
      map_option (receive_frame_ctx env) c,
      map_option (\<lambda>f. if receive_frame_ret env < 0 then av_frame_unref f
                       else received_frame env) f)"

text \<open>The context of a session after the two codec calls of one \<open>decode_packet\<close>.\<close>

definition context_after_decode :: "decode_env \<Rightarrow> AVCodecContext \<Rightarrow> AVCodecContext" where
  "context_after_decode env c = receive_frame_ctx env (send_packet_ctx env c)"

section \<open>decode_packet\<close>

text \<open>The inner loop, lines 90 to 93: \<open>for (ch = ...; ch < channels; ch++)\<close>.\<close>

function interleave_channels ::
  "float32 list list \<Rightarrow> int \<Rightarrow> int \<Rightarrow> int \<Rightarrow> float32 list \<Rightarrow> fault + float32 list" where
  "interleave_channels planes channels i ch output_buf =
     (if ch < channels then
        (case rd planes ch of
           Inl e \<Rightarrow> Inl e
         | Inr channel_data \<Rightarrow>
             (case rd channel_data i of
                Inl e \<Rightarrow> Inl e
              | Inr v \<Rightarrow>
                  (case wr output_buf (i * channels + ch) v of
                     Inl e \<Rightarrow> Inl e
                   | Inr output_buf' \<Rightarrow>
                       interleave_channels planes channels i (ch + 1) output_buf')))
      else Inr output_buf)"
  by pat_completeness auto
termination
  by (relation "measure (\<lambda>(planes, channels, i, ch, output_buf). nat (channels - ch))") auto

text \<open>The outer loop, lines 89 to 94: \<open>for (i = ...; i < frames; i++)\<close>.\<close>

function interleave_frames ::
  "float32 list list \<Rightarrow> int \<Rightarrow> int \<Rightarrow> int \<Rightarrow> float32 list \<Rightarrow> fault + float32 list" where
  "interleave_frames planes frames channels i output_buf =
     (if i < frames then
        (case interleave_channels planes channels i 0 output_buf of
           Inl e \<Rightarrow> Inl e
         | Inr output_buf' \<Rightarrow> interleave_frames planes frames channels (i + 1) output_buf')
      else Inr output_buf)"
  by pat_completeness auto
termination
  by (relation "measure (\<lambda>(planes, frames, channels, i, output_buf). nat (frames - i))") auto

declare interleave_channels.simps [simp del]
declare interleave_frames.simps [simp del]

text \<open>A read of \<open>state->ctx->field\<close>.\<close>

definition ctx_field :: "decoder_state \<Rightarrow> (AVCodecContext \<Rightarrow> int) \<Rightarrow> fault + int" where
  "ctx_field state field = (case ctx state of None \<Rightarrow> Inl NullDeref | Some c \<Rightarrow> Inr (field c))"

text \<open>
  \<open>decode_packet\<close>, lines 53 to 103. The result is the returned \<open>int\<close>, the session,
  the output buffer and the three out-cells as the call leaves them.
\<close>

definition decode_packet ::
  "decode_env \<Rightarrow> decoder_state \<Rightarrow> addr \<Rightarrow> int \<Rightarrow> float32 list \<Rightarrow> out_params
     \<Rightarrow> fault + (int \<times> decoder_state \<times> float32 list \<times> out_params)" where
  "decode_packet env state input_buf input_size output_buf outs =
     (case packet state of
        None \<Rightarrow> Inl NullDeref
      | Some p0 \<Rightarrow>
          let p = (av_packet_unref p0)\<lparr>pkt_data := input_buf, pkt_size := input_size\<rparr>;
              state1 = state\<lparr>packet := Some p\<rparr>;
              (ret, c1) = avcodec_send_packet env (ctx state1) p;
              state2 = state1\<lparr>ctx := c1\<rparr>
          in if ret < 0 then Inr (ret, state2, output_buf, outs)
             else
               let (ret2, c2, f2) = avcodec_receive_frame env (ctx state2) (frame state2);
                   state3 = state2\<lparr>ctx := c2, frame := f2\<rparr>
               in if ret2 < 0 then Inr (ret2, state3, output_buf, outs)
                  else
                    (case frame state3 of
                       None \<Rightarrow> Inl NullDeref
                     | Some f \<Rightarrow>
                         (case (if frame_sample_rate f = 0
                                then ctx_field state3 ctx_sample_rate
                                else Inr (frame_sample_rate f)) of
                            Inl e \<Rightarrow> Inl e
                          | Inr sample_rate \<Rightarrow>
                              (case (if nb_channels f = 0
                                     then ctx_field state3 ctx_nb_channels
                                     else Inr (nb_channels f)) of
                                 Inl e \<Rightarrow> Inl e
                               | Inr channels \<Rightarrow>
                                   (case interleave_frames (extended_data f) (nb_samples f)
                                              channels 0 output_buf of
                                      Inl e \<Rightarrow> Inl e
                                    | Inr output_buf' \<Rightarrow>
                                        Inr (0,
                                             state3\<lparr>frame := Some (av_frame_unref f)\<rparr>,
                                             output_buf',
                                             \<lparr>out_frames = nb_samples f,
                                              out_sample_rate = sample_rate,
                                              out_channels = channels\<rparr>))))))"

section \<open>encode_samples\<close>

record encode_env =
  send_frame_ret :: "AVFrame \<Rightarrow> int"
  receive_packet_ret :: int
  received_packet :: AVPacket
  received_bytes :: "byte list"

definition avcodec_send_frame :: "encode_env \<Rightarrow> AVFrame \<Rightarrow> int" where
  "avcodec_send_frame env f = send_frame_ret env f"

text \<open>\<open>avcodec_receive_packet\<close> unreferences the packet first; on success the packet
  is the codec's, and \<open>received_bytes\<close> is the storage its data pointer points to.\<close>

definition avcodec_receive_packet :: "encode_env \<Rightarrow> AVPacket \<Rightarrow> int \<times> AVPacket" where
  "avcodec_receive_packet env p =
     (if receive_packet_ret env < 0 then (receive_packet_ret env, av_packet_unref p)
      else (receive_packet_ret env, received_packet env))"

text \<open>\<open>memcpy(dst, src, n)\<close>: the \<open>int\<close> is converted to \<open>size_t\<close>, so a negative
  count is a huge one.\<close>

definition memcpy :: "byte list \<Rightarrow> byte list \<Rightarrow> int \<Rightarrow> fault + byte list" where
  "memcpy dst src n =
     (if 0 \<le> n \<and> n \<le> int (length src) \<and> n \<le> int (length dst)
      then Inr (take (nat n) src @ drop (nat n) dst) else Inl OutOfBounds)"

text \<open>The inner loop, lines 165 to 167: \<open>for (i = ...; i < num_frames; i++)\<close>.\<close>

function deinterleave_samples ::
  "float32 list \<Rightarrow> int \<Rightarrow> int \<Rightarrow> int \<Rightarrow> int \<Rightarrow> float32 list \<Rightarrow> fault + float32 list" where
  "deinterleave_samples input_buf channels num_frames ch i channel_data =
     (if i < num_frames then
        (case rd input_buf (i * channels + ch) of
           Inl e \<Rightarrow> Inl e
         | Inr v \<Rightarrow>
             (case wr channel_data i v of
                Inl e \<Rightarrow> Inl e
              | Inr channel_data' \<Rightarrow>
                  deinterleave_samples input_buf channels num_frames ch (i + 1) channel_data'))
      else Inr channel_data)"
  by pat_completeness auto
termination
  by (relation "measure (\<lambda>(input_buf, channels, num_frames, ch, i, channel_data).
        nat (num_frames - i))") auto

text \<open>The outer loop, lines 163 to 168: \<open>for (ch = ...; ch < channels; ch++)\<close>.\<close>

function deinterleave_channels ::
  "float32 list \<Rightarrow> int \<Rightarrow> int \<Rightarrow> int \<Rightarrow> float32 list list \<Rightarrow> fault + float32 list list" where
  "deinterleave_channels input_buf channels num_frames ch planes =
     (if ch < channels then
        (case rd planes ch of
           Inl e \<Rightarrow> Inl e
         | Inr channel_data \<Rightarrow>
             (case deinterleave_samples input_buf channels num_frames ch 0 channel_data of
                Inl e \<Rightarrow> Inl e
              | Inr channel_data' \<Rightarrow>
                  deinterleave_channels input_buf channels num_frames (ch + 1)
                    (planes[nat ch := channel_data'])))
      else Inr planes)"
  by pat_completeness auto
termination
  by (relation "measure (\<lambda>(input_buf, channels, num_frames, ch, planes).
        nat (channels - ch))") auto

declare deinterleave_samples.simps [simp del]
declare deinterleave_channels.simps [simp del]

text \<open>
  \<open>encode_samples\<close>, lines 154 to 188. The result is the returned \<open>int\<close>, the session
  and the output buffer as the call leaves them; \<open>output_buf_size\<close> is the capacity the
  caller states, the list \<open>output_buf\<close> the storage that is really there.
\<close>

definition encode_samples ::
  "encode_env \<Rightarrow> encoder_state \<Rightarrow> float32 list \<Rightarrow> int \<Rightarrow> byte list \<Rightarrow> int
     \<Rightarrow> fault + (int \<times> encoder_state \<times> byte list)" where
  "encode_samples env state input_buf num_frames output_buf output_buf_size =
     (case enc_frame state of
        None \<Rightarrow> Inl NullDeref
      | Some f \<Rightarrow>
          (case deinterleave_channels input_buf (nb_channels f) num_frames 0
                  (extended_data f) of
             Inl e \<Rightarrow> Inl e
           | Inr planes \<Rightarrow>
               let f1 = f\<lparr>extended_data := planes, nb_samples := num_frames\<rparr>;
                   state1 = state\<lparr>enc_frame := Some f1\<rparr>;
                   ret = avcodec_send_frame env f1
               in if ret < 0 then Inr (ret, state1, output_buf)
                  else
                    let ret2 = receive_packet_ret env;
                        state2 = state1\<lparr>enc_packet :=
                          map_option (\<lambda>p. snd (avcodec_receive_packet env p))
                            (enc_packet state1)\<rparr>
                    in if ret2 < 0 then Inr (ret2, state2, output_buf)
                       else
                         (case enc_packet state2 of
                            None \<Rightarrow> Inl NullDeref
                          | Some p \<Rightarrow>
                              if pkt_size p > output_buf_size
                              then Inr (-1, state2, output_buf)
                              else
                                (case memcpy output_buf (received_bytes env) (pkt_size p) of
                                   Inl e \<Rightarrow> Inl e
                                 | Inr output_buf' \<Rightarrow>
                                     Inr (pkt_size p,
                                          state2\<lparr>enc_packet := Some (av_packet_unref p)\<rparr>,
                                          output_buf')))))"

section \<open>Creation and destruction\<close>

text \<open>
  Every allocation and release of a call is recorded, in order, as an event. The
  environment says which codecs exist, which allocations succeed and what
  \<open>avcodec_open2\<close> answers.
\<close>

datatype AVCodec = AVCodec int

datatype resource = SessionStruct | CodecContext | FrameHolder | PacketHolder

datatype event = Alloc resource | Release resource

record init_env =
  find_decoder :: "int \<Rightarrow> AVCodec option"
  find_encoder :: "int \<Rightarrow> AVCodec option"
  malloc_ok :: bool
  alloc_context_ok :: bool
  fresh_context :: AVCodecContext
  open_ret :: int
  open_frame_size :: int
  frame_alloc_ok :: bool
  get_buffer_ok :: bool
  packet_alloc_ok :: bool

definition AV_SAMPLE_FMT_FLTP :: int where
  "AV_SAMPLE_FMT_FLTP = 8"

definition avcodec_alloc_context3 :: "init_env \<Rightarrow> AVCodec \<Rightarrow> AVCodecContext option" where
  "avcodec_alloc_context3 env codec =
     (if alloc_context_ok env then Some ((fresh_context env)\<lparr>ctx_is_open := False\<rparr>)
      else None)"

definition av_channel_layout_default :: "AVCodecContext \<Rightarrow> int \<Rightarrow> AVCodecContext" where
  "av_channel_layout_default c channels = c\<lparr>ctx_nb_channels := channels\<rparr>"

definition avcodec_open2 :: "init_env \<Rightarrow> AVCodecContext \<Rightarrow> AVCodec \<Rightarrow> int \<times> AVCodecContext" where
  "avcodec_open2 env c codec =
     (if open_ret env < 0 then (open_ret env, c)
      else (open_ret env, c\<lparr>ctx_is_open := True, ctx_frame_size := open_frame_size env\<rparr>))"

definition av_frame_alloc :: "init_env \<Rightarrow> AVFrame option" where
  "av_frame_alloc env = (if frame_alloc_ok env then Some blank_frame else None)"

definition av_packet_alloc :: "init_env \<Rightarrow> AVPacket option" where
  "av_packet_alloc env = (if packet_alloc_ok env then Some blank_packet else None)"

text \<open>\<open>av_frame_get_buffer\<close>: on success every channel has a plane of \<open>nb_samples\<close>
  floats; on failure the frame is as it was.\<close>

definition av_frame_get_buffer :: "init_env \<Rightarrow> AVFrame \<Rightarrow> AVFrame" where
  "av_frame_get_buffer env f =
     (if get_buffer_ok env
      then f\<lparr>extended_data :=
             replicate (nat (nb_channels f)) (replicate (nat (nb_samples f)) 0)
             @ replicate (8 - nat (nb_channels f)) []\<rparr>
      else f)"

definition alloc_event :: "resource \<Rightarrow> 'a option \<Rightarrow> event list" where
  "alloc_event r p = (case p of None \<Rightarrow> [] | Some x \<Rightarrow> [Alloc r])"

text \<open>\<open>init_decoder\<close>, lines 29 to 50. \<open>malloc\<close> and \<open>avcodec_alloc_context3\<close> are
  dereferenced unchecked (lines 36 and 37).\<close>

definition init_decoder ::
  "init_env \<Rightarrow> int \<Rightarrow> int \<Rightarrow> int \<Rightarrow> fault + (decoder_state option \<times> event list)" where
  "init_decoder env codec_id sample_rate channels =
     (case find_decoder env codec_id of
        None \<Rightarrow> Inr (None, [])
      | Some codec \<Rightarrow>
          if \<not> malloc_ok env then Inl NullDeref
          else
            (case avcodec_alloc_context3 env codec of
               None \<Rightarrow> Inl NullDeref
             | Some c0 \<Rightarrow>
                 let c1 = c0\<lparr>ctx_sample_rate := sample_rate\<rparr>;
                     c2 = av_channel_layout_default c1 channels;
                     (ret, c3) = avcodec_open2 env c2 codec
                 in if ret < 0
                    then Inr (None, [Alloc SessionStruct, Alloc CodecContext,
                                     Release CodecContext, Release SessionStruct])
                    else
                      let fr = av_frame_alloc env;
                          pk = av_packet_alloc env
                      in Inr (Some \<lparr>ctx = Some c3, frame = fr, packet = pk\<rparr>,
                              [Alloc SessionStruct, Alloc CodecContext]
                              @ alloc_event FrameHolder fr @ alloc_event PacketHolder pk)))"

text \<open>\<open>init_encoder\<close>, lines 123 to 151. The frame of \<open>av_frame_alloc\<close> is
  dereferenced unchecked too (line 141); the result of \<open>av_frame_get_buffer\<close> is not
  looked at.\<close>

definition init_encoder ::
  "init_env \<Rightarrow> int \<Rightarrow> int \<Rightarrow> int \<Rightarrow> int \<Rightarrow> fault + (encoder_state option \<times> event list)" where
  "init_encoder env codec_id sample_rate channels bitrate =
     (case find_encoder env codec_id of
        None \<Rightarrow> Inr (None, [])
      | Some codec \<Rightarrow>
          if \<not> malloc_ok env then Inl NullDeref
          else
            (case avcodec_alloc_context3 env codec of
               None \<Rightarrow> Inl NullDeref
             | Some c0 \<Rightarrow>
                 let c1 = c0\<lparr>ctx_sample_rate := sample_rate\<rparr>;
                     c2 = av_channel_layout_default c1 channels;
                     c3 = c2\<lparr>ctx_bit_rate := bitrate, ctx_sample_fmt := AV_SAMPLE_FMT_FLTP\<rparr>;
                     (ret, c4) = avcodec_open2 env c3 codec
                 in if ret < 0
                    then Inr (None, [Alloc SessionStruct, Alloc CodecContext,
                                     Release CodecContext, Release SessionStruct])
                    else
                      (case av_frame_alloc env of
                         None \<Rightarrow> Inl NullDeref
                       | Some f0 \<Rightarrow>
                           let f1 = f0\<lparr>nb_samples := ctx_frame_size c4,
                                      frame_format := ctx_sample_fmt c4,
                                      frame_sample_rate := sample_rate,
                                      nb_channels := ctx_nb_channels c4\<rparr>;
                               f2 = av_frame_get_buffer env f1;
                               pk = av_packet_alloc env
                           in Inr (Some \<lparr>enc_ctx = Some c4, enc_frame = Some f2,
                                         enc_packet = pk\<rparr>,
                                   [Alloc SessionStruct, Alloc CodecContext,
                                    Alloc FrameHolder]
                                   @ alloc_event PacketHolder pk))))"

definition release_event :: "resource \<Rightarrow> 'a option \<Rightarrow> event list" where
  "release_event r p = (case p of None \<Rightarrow> [] | Some x \<Rightarrow> [Release r])"

text \<open>\<open>close_decoder\<close>, lines 113 to 120, and \<open>close_encoder\<close>, lines 191 to 198: the
  events of the call.\<close>

definition close_decoder :: "decoder_state option \<Rightarrow> event list" where
  "close_decoder state =
     (case state of
        None \<Rightarrow> []
      | Some s \<Rightarrow>
          release_event FrameHolder (frame s) @ release_event PacketHolder (packet s)
          @ release_event CodecContext (ctx s) @ [Release SessionStruct])"

definition close_encoder :: "encoder_state option \<Rightarrow> event list" where
  "close_encoder state =
     (case state of
        None \<Rightarrow> []
      | Some s \<Rightarrow>
          release_event FrameHolder (enc_frame s) @ release_event PacketHolder (enc_packet s)
          @ release_event CodecContext (enc_ctx s) @ [Release SessionStruct])"

text \<open>The resources a sequence of events leaves allocated.\<close>

fun live :: "event list \<Rightarrow> resource list \<Rightarrow> resource list" where
  "live [] rs = rs"
| "live (Alloc r # es) rs = live es (r # rs)"
| "live (Release r # es) rs = live es (remove1 r rs)"


section \<open>Concrete sessions and codec answers\<close>

text \<open>A stereo session at 48 kHz and a decoded frame of two samples per channel, used
  to run the bridge on concrete inputs.\<close>

definition ex_ctx :: AVCodecContext where
  "ex_ctx = \<lparr>ctx_sample_rate = 48000, ctx_nb_channels = 2, ctx_bit_rate = 192000,
     ctx_sample_fmt = 8, ctx_frame_size = 1536, ctx_is_open = True\<rparr>"

definition ex_decoder :: decoder_state where
  "ex_decoder = \<lparr>ctx = Some ex_ctx, frame = Some blank_frame, packet = Some blank_packet\<rparr>"

definition ex_frame :: AVFrame where
  "ex_frame = \<lparr>nb_samples = 2, nb_channels = 2, frame_sample_rate = 48000, frame_format = 8,
     extended_data = [[1, 2], [3, 4]]\<rparr>"

definition ex_decode_env :: decode_env where
  "ex_decode_env = \<lparr>send_packet_ret = (\<lambda>p. 0), send_packet_ctx = (\<lambda>c. c),
     receive_frame_ret = 0, receive_frame_ctx = (\<lambda>c. c), received_frame = ex_frame\<rparr>"

definition ex_outs :: out_params where
  "ex_outs = \<lparr>out_frames = 7, out_sample_rate = 7, out_channels = 7\<rparr>"

definition ex_init_env :: init_env where
  "ex_init_env = \<lparr>find_decoder = (\<lambda>codec_id. if codec_id = 86056 then Some (AVCodec 86056) else None),
     find_encoder = (\<lambda>codec_id. if codec_id = 86056 then Some (AVCodec 86056) else None),
     malloc_ok = True, alloc_context_ok = True,
     fresh_context = \<lparr>ctx_sample_rate = 0, ctx_nb_channels = 0, ctx_bit_rate = 0,
       ctx_sample_fmt = -1, ctx_frame_size = 0, ctx_is_open = False\<rparr>,
     open_ret = 0, open_frame_size = 1536,
     frame_alloc_ok = True, get_buffer_ok = True, packet_alloc_ok = True\<rparr>"


text \<open>The session \<open>init_decoder\<close> creates in that environment.\<close>

definition ex_created :: decoder_state where
  "ex_created = \<lparr>ctx = Some \<lparr>ctx_sample_rate = 48000, ctx_nb_channels = 2, ctx_bit_rate = 0,
       ctx_sample_fmt = -1, ctx_frame_size = 1536, ctx_is_open = True\<rparr>,
     frame = Some blank_frame, packet = Some blank_packet\<rparr>"



definition ex_rejecting_env :: decode_env where
  "ex_rejecting_env = \<lparr>send_packet_ret = (\<lambda>p. -22), send_packet_ctx = (\<lambda>c. c),
     receive_frame_ret = 0, receive_frame_ctx = (\<lambda>c. c), received_frame = ex_frame\<rparr>"

text \<open>An encoder session with a frame period of three samples, a codec that answers
  with a packet of three bytes, and one that rejects every frame with the code -1
  (\<open>AVERROR(EPERM)\<close>).\<close>

definition ex_enc_frame :: AVFrame where
  "ex_enc_frame = \<lparr>nb_samples = 3, nb_channels = 2, frame_sample_rate = 48000,
     frame_format = 8,
     extended_data = [[0, 0, 0], [0, 0, 0], [], [], [], [], [], []]\<rparr>"

definition ex_encoder :: encoder_state where
  "ex_encoder = \<lparr>enc_ctx = Some (ex_ctx\<lparr>ctx_frame_size := 3\<rparr>), enc_frame = Some ex_enc_frame,
     enc_packet = Some blank_packet\<rparr>"

definition ex_filled_frame :: AVFrame where
  "ex_filled_frame = \<lparr>nb_samples = 2, nb_channels = 2, frame_sample_rate = 48000,
     frame_format = 8,
     extended_data = [[1, 2, 0], [3, 4, 0], [], [], [], [], [], []]\<rparr>"

definition ex_encode_env :: encode_env where
  "ex_encode_env = \<lparr>send_frame_ret = (\<lambda>f. 0), receive_packet_ret = 0,
     received_packet = \<lparr>pkt_data = 8192, pkt_size = 3\<rparr>, received_bytes = [10, 20, 30]\<rparr>"

definition ex_eperm_env :: encode_env where
  "ex_eperm_env = \<lparr>send_frame_ret = (\<lambda>f. -1), receive_packet_ret = 0,
     received_packet = \<lparr>pkt_data = 8192, pkt_size = 3\<rparr>, received_bytes = [10, 20, 30]\<rparr>"


section \<open>Properties of the decoder\<close>

subsection \<open>The interleaving loops\<close>

lemma rd_Inr: "rd xs k = Inr v \<longleftrightarrow> 0 \<le> k \<and> k < int (length xs) \<and> v = xs ! nat k"
  by (auto simp: rd_def)

lemma wr_Inr: "wr xs k v = Inr ys \<longleftrightarrow> 0 \<le> k \<and> k < int (length xs) \<and> ys = xs[nat k := v]"
  by (auto simp: wr_def)

lemma interleave_channels_done:
  "channels \<le> ch \<Longrightarrow> interleave_channels planes channels i ch out = Inr out"
  by (simp add: interleave_channels.simps)

lemma interleave_channels_step:
  assumes "ch < channels"
    and "interleave_channels planes channels i ch out = Inr out'"
  shows "0 \<le> ch \<and> ch < int (length planes) \<and> 0 \<le> i \<and> i < int (length (planes ! nat ch))
     \<and> 0 \<le> i * channels + ch \<and> i * channels + ch < int (length out)
     \<and> interleave_channels planes channels i (ch + 1)
          (out[nat (i * channels + ch) := planes ! nat ch ! nat i]) = Inr out'"
  using assms
  by (subst (asm) interleave_channels.simps)
     (auto simp: rd_Inr wr_Inr split: sum.splits)

lemma interleave_channels_spec:
  "interleave_channels planes channels i ch out = Inr out' \<Longrightarrow> 0 \<le> i \<Longrightarrow> 0 \<le> ch \<Longrightarrow>
     length out' = length out \<and>
     (\<forall>k. 0 \<le> k \<and> (k < i * channels + ch \<or> i * channels + channels \<le> k)
          \<longrightarrow> out' ! nat k = out ! nat k) \<and>
     (\<forall>c. ch \<le> c \<and> c < channels \<longrightarrow>
          i * channels + c < int (length out') \<and> c < int (length planes) \<and>
          i < int (length (planes ! nat c)) \<and>
          out' ! nat (i * channels + c) = planes ! nat c ! nat i)"
proof (induction planes channels i ch out rule: interleave_channels.induct)
  case (1 planes channels i ch out)
  show ?case
  proof (cases "ch < channels")
    case False
    with "1.prems" show ?thesis by (auto simp: interleave_channels_done)
  next
    case True
    let ?k = "i * channels + ch"
    let ?v = "planes ! nat ch ! nat i"
    let ?out1 = "out[nat ?k := ?v]"
    from interleave_channels_step [OF True "1.prems"(1)]
    have rng: "ch < int (length planes)" "i < int (length (planes ! nat ch))"
      "0 \<le> ?k" "?k < int (length out)"
      and rec: "interleave_channels planes channels i (ch + 1) ?out1 = Inr out'"
      by simp_all
    have r1: "rd planes ch = Inr (planes ! nat ch)"
      using rng "1.prems" by (simp add: rd_def)
    have r2: "rd (planes ! nat ch) i = Inr ?v"
      using rng "1.prems" by (simp add: rd_def)
    have r3: "wr out ?k ?v = Inr ?out1"
      using rng by (simp add: wr_def)
    from "1.IH" [OF True r1 r2 r3 rec] "1.prems"
    have ih: "length out' = length ?out1"
      "\<And>k. 0 \<le> k \<Longrightarrow> k < ?k + 1 \<or> i * channels + channels \<le> k
          \<Longrightarrow> out' ! nat k = ?out1 ! nat k"
      "\<And>c. ch + 1 \<le> c \<Longrightarrow> c < channels
          \<Longrightarrow> i * channels + c < int (length out') \<and> c < int (length planes) \<and>
          i < int (length (planes ! nat c)) \<and>
          out' ! nat (i * channels + c) = planes ! nat c ! nat i"
      by (auto simp: algebra_simps)
    have a: "length out' = length out" using ih(1) by simp
    have b: "out' ! nat k = out ! nat k"
      if "0 \<le> k" "k < ?k \<or> i * channels + channels \<le> k" for k
    proof -
      have "out' ! nat k = ?out1 ! nat k" using that by (intro ih(2)) auto
      moreover have "nat k \<noteq> nat ?k" using that True rng by auto
      ultimately show ?thesis by simp
    qed
    have c: "i * channels + c < int (length out') \<and> c < int (length planes) \<and>
          i < int (length (planes ! nat c)) \<and>
          out' ! nat (i * channels + c) = planes ! nat c ! nat i"
      if "ch \<le> c" "c < channels" for c
    proof (cases "c = ch")
      case False
      with that show ?thesis by (intro ih(3)) auto
    next
      case True
      have "out' ! nat ?k = ?out1 ! nat ?k" using rng by (intro ih(2)) auto
      also have "\<dots> = ?v" using rng by simp
      finally show ?thesis using True rng a by simp
    qed
    show ?thesis using a b c by blast
  qed
qed


lemma interleave_frames_done:
  "frames \<le> i \<Longrightarrow> interleave_frames planes frames channels i out = Inr out"
  by (simp add: interleave_frames.simps)

lemma interleave_frames_step:
  assumes "i < frames"
    and "interleave_frames planes frames channels i out = Inr out'"
  shows "\<exists>out1. interleave_channels planes channels i 0 out = Inr out1
     \<and> interleave_frames planes frames channels (i + 1) out1 = Inr out'"
  using assms
  by (subst (asm) interleave_frames.simps) (auto split: sum.splits)

lemma interleave_frames_no_channels:
  "channels \<le> 0 \<Longrightarrow> interleave_frames planes frames channels i out = Inr out"
proof (induction planes frames channels i out rule: interleave_frames.induct)
  case (1 planes frames channels i out)
  show ?case
  proof (cases "i < frames")
    case True
    have "interleave_channels planes channels i 0 out = Inr out"
      using "1.prems" by (simp add: interleave_channels_done)
    with "1.IH" [OF True this "1.prems"] True show ?thesis
      by (subst interleave_frames.simps) simp
  next
    case False
    then show ?thesis by (simp add: interleave_frames_done)
  qed
qed

lemma interleave_frames_spec:
  "interleave_frames planes frames channels i out = Inr out' \<Longrightarrow> 0 \<le> i \<Longrightarrow> 0 < channels \<Longrightarrow>
     length out' = length out \<and>
     (\<forall>k. 0 \<le> k \<and> (k < i * channels \<or> frames * channels \<le> k)
          \<longrightarrow> out' ! nat k = out ! nat k) \<and>
     (\<forall>j c. i \<le> j \<and> j < frames \<and> 0 \<le> c \<and> c < channels \<longrightarrow>
          j * channels + c < int (length out') \<and> c < int (length planes) \<and>
          j < int (length (planes ! nat c)) \<and>
          out' ! nat (j * channels + c) = planes ! nat c ! nat j)"
proof (induction planes frames channels i out rule: interleave_frames.induct)
  case (1 planes frames channels i out)
  show ?case
  proof (cases "i < frames")
    case False
    with "1.prems" show ?thesis by (auto simp: interleave_frames_done)
  next
    case True
    from interleave_frames_step [OF True "1.prems"(1)]
    obtain out1 where row: "interleave_channels planes channels i 0 out = Inr out1"
      and rec: "interleave_frames planes frames channels (i + 1) out1 = Inr out'"
      by blast
    from interleave_channels_spec [OF row] "1.prems"
    have r: "length out1 = length out"
      "\<And>k. 0 \<le> k \<Longrightarrow> k < i * channels \<or> i * channels + channels \<le> k
          \<Longrightarrow> out1 ! nat k = out ! nat k"
      "\<And>c. 0 \<le> c \<Longrightarrow> c < channels
          \<Longrightarrow> i * channels + c < int (length out1) \<and> c < int (length planes) \<and>
          i < int (length (planes ! nat c)) \<and>
          out1 ! nat (i * channels + c) = planes ! nat c ! nat i"
      by auto
    from "1.IH" [OF True row rec] "1.prems"
    have ih: "length out' = length out1"
      "\<And>k. 0 \<le> k \<Longrightarrow> k < (i + 1) * channels \<or> frames * channels \<le> k
          \<Longrightarrow> out' ! nat k = out1 ! nat k"
      "\<And>j c. i + 1 \<le> j \<Longrightarrow> j < frames \<Longrightarrow> 0 \<le> c \<Longrightarrow> c < channels
          \<Longrightarrow> j * channels + c < int (length out') \<and> c < int (length planes) \<and>
          j < int (length (planes ! nat c)) \<and>
          out' ! nat (j * channels + c) = planes ! nat c ! nat j"
      by auto
    have le: "(i + 1) * channels \<le> frames * channels"
      using True "1.prems" by (intro mult_right_mono) auto
    have a: "length out' = length out" using ih(1) r(1) by simp
    have b: "out' ! nat k = out ! nat k"
      if "0 \<le> k" "k < i * channels \<or> frames * channels \<le> k" for k
    proof -
      have "out' ! nat k = out1 ! nat k"
        using that "1.prems" by (intro ih(2)) (auto simp: algebra_simps)
      also have "out1 ! nat k = out ! nat k"
        using that le by (intro r(2)) (auto simp: algebra_simps)
      finally show ?thesis .
    qed
    have c: "j * channels + c < int (length out') \<and> c < int (length planes) \<and>
          j < int (length (planes ! nat c)) \<and>
          out' ! nat (j * channels + c) = planes ! nat c ! nat j"
      if "i \<le> j" "j < frames" "0 \<le> c" "c < channels" for j c
    proof (cases "j = i")
      case False
      with that show ?thesis by (intro ih(3)) auto
    next
      case True
      have "0 \<le> i * channels" using "1.prems" by simp
      then have "out' ! nat (i * channels + c) = out1 ! nat (i * channels + c)"
        using that by (intro ih(2)) (auto simp: algebra_simps)
      also have "\<dots> = planes ! nat c ! nat i" using that r(3) by simp
      finally show ?thesis using True r(3) [of c] that a r(1) by simp
    qed
    show ?thesis using a b c by blast
  qed
qed

lemma interleave_channels_take:
  "interleave_channels planes channels i ch out = Inr out' \<Longrightarrow> 0 \<le> i \<Longrightarrow> 0 \<le> ch \<Longrightarrow>
     i * channels + channels \<le> int m \<Longrightarrow>
     interleave_channels planes channels i ch (take m out) = Inr (take m out')"
proof (induction planes channels i ch out rule: interleave_channels.induct)
  case (1 planes channels i ch out)
  show ?case
  proof (cases "ch < channels")
    case False
    with "1.prems" show ?thesis by (simp add: interleave_channels_done)
  next
    case True
    let ?k = "i * channels + ch"
    let ?v = "planes ! nat ch ! nat i"
    let ?out1 = "out[nat ?k := ?v]"
    from interleave_channels_step [OF True "1.prems"(1)]
    have rng: "ch < int (length planes)" "i < int (length (planes ! nat ch))"
      "0 \<le> ?k" "?k < int (length out)"
      and rec: "interleave_channels planes channels i (ch + 1) ?out1 = Inr out'"
      by simp_all
    have r1: "rd planes ch = Inr (planes ! nat ch)"
      using rng "1.prems" by (simp add: rd_def)
    have r2: "rd (planes ! nat ch) i = Inr ?v"
      using rng "1.prems" by (simp add: rd_def)
    have r3: "wr out ?k ?v = Inr ?out1"
      using rng by (simp add: wr_def)
    have ih: "interleave_channels planes channels i (ch + 1) (take m ?out1) = Inr (take m out')"
      using "1.IH" [OF True r1 r2 r3 rec] "1.prems" by simp
    have km: "nat ?k < m" using True "1.prems" rng by linarith
    have r3': "wr (take m out) ?k ?v = Inr (take m ?out1)"
      using rng km by (simp add: wr_def take_update_swap)
    show ?thesis
      using True r1 r2 r3' ih by (subst interleave_channels.simps) simp
  qed
qed

lemma interleave_frames_take:
  "interleave_frames planes frames channels i out = Inr out' \<Longrightarrow> 0 \<le> i \<Longrightarrow> 0 < channels \<Longrightarrow>
     frames * channels \<le> int m \<Longrightarrow>
     interleave_frames planes frames channels i (take m out) = Inr (take m out')"
proof (induction planes frames channels i out rule: interleave_frames.induct)
  case (1 planes frames channels i out)
  show ?case
  proof (cases "i < frames")
    case False
    with "1.prems" show ?thesis by (simp add: interleave_frames_done)
  next
    case True
    from interleave_frames_step [OF True "1.prems"(1)]
    obtain out1 where row: "interleave_channels planes channels i 0 out = Inr out1"
      and rec: "interleave_frames planes frames channels (i + 1) out1 = Inr out'"
      by blast
    have le: "(i + 1) * channels \<le> frames * channels"
      using True "1.prems" by (intro mult_right_mono) auto
    then have "i * channels + channels \<le> int m"
      using "1.prems" by (simp add: algebra_simps)
    from interleave_channels_take [OF row _ _ this] "1.prems"
    have row': "interleave_channels planes channels i 0 (take m out) = Inr (take m out1)"
      by simp
    have "interleave_frames planes frames channels (i + 1) (take m out1) = Inr (take m out')"
      using "1.IH" [OF True row rec] "1.prems" by simp
    with True row' show ?thesis
      by (subst interleave_frames.simps) simp
  qed
qed

lemma interleave_channels_total:
  "0 \<le> i \<Longrightarrow> 0 \<le> ch \<Longrightarrow> i * channels + channels \<le> int (length out) \<Longrightarrow>
     channels \<le> int (length planes) \<Longrightarrow>
     (\<forall>c. 0 \<le> c \<and> c < channels \<longrightarrow> i < int (length (planes ! nat c))) \<Longrightarrow>
     \<exists>out'. interleave_channels planes channels i ch out = Inr out' \<and> length out' = length out"
proof (induction planes channels i ch out rule: interleave_channels.induct)
  case (1 planes channels i ch out)
  show ?case
  proof (cases "ch < channels")
    case False
    then show ?thesis by (simp add: interleave_channels_done)
  next
    case True
    let ?k = "i * channels + ch"
    let ?v = "planes ! nat ch ! nat i"
    let ?out1 = "out[nat ?k := ?v]"
    have r1: "rd planes ch = Inr (planes ! nat ch)"
      using True "1.prems" by (simp add: rd_def)
    have "i < int (length (planes ! nat ch))" using True "1.prems" by simp
    then have r2: "rd (planes ! nat ch) i = Inr ?v"
      using "1.prems" by (simp add: rd_def)
    have "0 \<le> i * channels" using True "1.prems" by simp
    then have r3: "wr out ?k ?v = Inr ?out1"
      using True "1.prems" by (simp add: wr_def)
    from "1.IH" [OF True r1 r2 r3] "1.prems"
    obtain out' where "interleave_channels planes channels i (ch + 1) ?out1 = Inr out'"
      "length out' = length out"
      by auto
    with True r1 r2 r3 show ?thesis
      by (simp add: interleave_channels.simps [of planes channels i ch])
  qed
qed

lemma interleave_frames_total:
  "0 \<le> i \<Longrightarrow> frames * channels \<le> int (length out) \<Longrightarrow> channels \<le> int (length planes) \<Longrightarrow>
     (\<forall>c. 0 \<le> c \<and> c < channels \<longrightarrow> frames \<le> int (length (planes ! nat c))) \<Longrightarrow>
     \<exists>out'. interleave_frames planes frames channels i out = Inr out' \<and> length out' = length out"
proof (induction planes frames channels i out rule: interleave_frames.induct)
  case (1 planes frames channels i out)
  show ?case
  proof (cases "i < frames \<and> 0 < channels")
    case False
    then show ?thesis
      using interleave_frames_done [of frames i] interleave_frames_no_channels [of channels]
      by (cases "frames \<le> i") auto
  next
    case True
    then have "(i + 1) * channels \<le> frames * channels"
      by (intro mult_right_mono) auto
    then have room: "i * channels + channels \<le> int (length out)"
      using "1.prems" by (simp add: algebra_simps)
    have "\<forall>c. 0 \<le> c \<and> c < channels \<longrightarrow> i < int (length (planes ! nat c))"
      using True "1.prems"(4) by fastforce
    from interleave_channels_total [OF "1.prems"(1) _ room "1.prems"(3) this, of 0]
    obtain out1 where row: "interleave_channels planes channels i 0 out = Inr out1"
      and len: "length out1 = length out"
      by auto
    from "1.IH" [OF _ row] True "1.prems" len
    obtain out' where "interleave_frames planes frames channels (i + 1) out1 = Inr out'"
      "length out' = length out"
      by auto
    with True row show ?thesis
      by (simp add: interleave_frames.simps [of planes frames channels i])
  qed
qed

subsection \<open>The returns of decode_packet\<close>

lemmas ex_defs = ex_ctx_def ex_decoder_def ex_frame_def ex_decode_env_def ex_outs_def

lemmas decode_eval = decode_packet_def Let_def avcodec_send_packet_def
  avcodec_receive_frame_def av_packet_unref_def av_frame_unref_def blank_packet_def
  blank_frame_def ctx_field_def interleave_frames.simps interleave_channels.simps
  rd_def wr_def

lemma ex_decode:
  "decode_packet ex_decode_env ex_decoder 4096 768 [0, 0, 0, 0, 9] ex_outs
     = Inr (0,
            \<lparr>ctx = Some ex_ctx, frame = Some blank_frame,
             packet = Some \<lparr>pkt_data = 4096, pkt_size = 768\<rparr>\<rparr>,
            [1, 3, 2, 4, 9],
            \<lparr>out_frames = 2, out_sample_rate = 48000, out_channels = 2\<rparr>)"
  by (simp add: ex_defs decode_eval)

lemma decode_packet_Inr:
  assumes "decode_packet env state input_buf input_size output_buf outs = Inr (r, state', out', outs')"
  defines "p \<equiv> \<lparr>pkt_data = input_buf, pkt_size = input_size\<rparr>"
  shows "packet state \<noteq> None \<and> packet state' = Some p \<and>
    (send_packet_ret env p < 0 \<and> r = send_packet_ret env p
       \<and> ctx state' = map_option (send_packet_ctx env) (ctx state)
       \<and> frame state' = frame state
       \<and> out' = output_buf \<and> outs' = outs
     \<or> 0 \<le> send_packet_ret env p \<and> receive_frame_ret env < 0 \<and> r = receive_frame_ret env
       \<and> ctx state' = map_option (context_after_decode env) (ctx state)
       \<and> frame state' = map_option (\<lambda>f. blank_frame) (frame state)
       \<and> out' = output_buf \<and> outs' = outs
     \<or> 0 \<le> send_packet_ret env p \<and> 0 \<le> receive_frame_ret env \<and> r = 0
       \<and> ctx state' = map_option (context_after_decode env) (ctx state)
       \<and> frame state \<noteq> None \<and> frame state' = Some blank_frame
       \<and> (frame_sample_rate (received_frame env) = 0 \<or> nb_channels (received_frame env) = 0
            \<longrightarrow> ctx state \<noteq> None)
       \<and> out_frames outs' = nb_samples (received_frame env)
       \<and> out_sample_rate outs' =
           (if frame_sample_rate (received_frame env) = 0
            then ctx_sample_rate (context_after_decode env (the (ctx state)))
            else frame_sample_rate (received_frame env))
       \<and> out_channels outs' =
           (if nb_channels (received_frame env) = 0
            then ctx_nb_channels (context_after_decode env (the (ctx state)))
            else nb_channels (received_frame env))
       \<and> interleave_frames (extended_data (received_frame env)) (out_frames outs')
            (out_channels outs') 0 output_buf = Inr out')"
  using assms(1) unfolding p_def
  by (cases "ctx state")
     (auto simp: decode_packet_def Let_def avcodec_send_packet_def avcodec_receive_frame_def
        av_packet_unref_def av_frame_unref_def blank_packet_def ctx_field_def
        context_after_decode_def
      split: option.splits if_splits sum.splits)

lemma decode_packet_send_fails:
  assumes "packet state = Some p0"
    and "send_packet_ret env \<lparr>pkt_data = input_buf, pkt_size = input_size\<rparr> < 0"
  shows "decode_packet env state input_buf input_size output_buf outs
     = Inr (send_packet_ret env \<lparr>pkt_data = input_buf, pkt_size = input_size\<rparr>,
            state\<lparr>packet := Some \<lparr>pkt_data = input_buf, pkt_size = input_size\<rparr>,
                  ctx := map_option (send_packet_ctx env) (ctx state)\<rparr>,
            output_buf, outs)"
  using assms
  by (simp add: decode_packet_def Let_def avcodec_send_packet_def av_packet_unref_def
        blank_packet_def)

lemma decode_packet_receive_fails:
  assumes "packet state = Some p0"
    and "0 \<le> send_packet_ret env \<lparr>pkt_data = input_buf, pkt_size = input_size\<rparr>"
    and "receive_frame_ret env < 0"
  shows "decode_packet env state input_buf input_size output_buf outs
     = Inr (receive_frame_ret env,
            state\<lparr>packet := Some \<lparr>pkt_data = input_buf, pkt_size = input_size\<rparr>,
                  ctx := map_option (context_after_decode env) (ctx state),
                  frame := map_option (\<lambda>f. blank_frame) (frame state)\<rparr>,
            output_buf, outs)"
  using assms
  by (cases "ctx state")
     (simp_all add: decode_packet_def Let_def avcodec_send_packet_def av_packet_unref_def
        blank_packet_def avcodec_receive_frame_def av_frame_unref_def
        context_after_decode_def)

lemma decode_packet_succeeds:
  assumes "packet state = Some p0" and "frame state = Some f0" and "ctx state = Some c0"
    and "0 \<le> send_packet_ret env \<lparr>pkt_data = input_buf, pkt_size = input_size\<rparr>"
    and "0 \<le> receive_frame_ret env"
    and "C = (if nb_channels (received_frame env) = 0
              then ctx_nb_channels (context_after_decode env c0)
              else nb_channels (received_frame env))"
    and "interleave_frames (extended_data (received_frame env))
           (nb_samples (received_frame env)) C 0 output_buf = Inr output_buf'"
  shows "decode_packet env state input_buf input_size output_buf outs
     = Inr (0,
            state\<lparr>packet := Some \<lparr>pkt_data = input_buf, pkt_size = input_size\<rparr>,
                  ctx := Some (context_after_decode env c0),
                  frame := Some blank_frame\<rparr>,
            output_buf',
            \<lparr>out_frames = nb_samples (received_frame env),
             out_sample_rate =
               (if frame_sample_rate (received_frame env) = 0
                then ctx_sample_rate (context_after_decode env c0)
                else frame_sample_rate (received_frame env)),
             out_channels = C\<rparr>)"
  using assms
  by (cases "nb_channels (received_frame env) = 0")
     (simp_all add: decode_packet_def Let_def avcodec_send_packet_def av_packet_unref_def
        blank_packet_def avcodec_receive_frame_def av_frame_unref_def ctx_field_def
        context_after_decode_def)


subsection \<open>The interleave law\<close>

text \<open>
  C1. Interleave law of the decoder: when \<open>decode_packet\<close> returns 0, the frame count
  \<open>F\<close> it reports is the sample count of the decoded frame and the channel count \<open>C\<close>
  it reports is the channel count of the decoded frame (that of the codec context when
  the frame reports none), and the output buffer holds at index \<open>i * C + ch\<close> sample
  \<open>i\<close> of plane \<open>ch\<close> of the decoded frame, for all \<open>0 \<le> i < F\<close> and \<open>0 \<le> ch < C\<close>;
  the index lies inside the buffer and the sample inside its plane.
\<close>

theorem decode_packet_interleave_law:
  assumes "decode_packet env state input_buf input_size output_buf outs
             = Inr (0, state', output_buf', outs')"
  shows "out_frames outs' = nb_samples (received_frame env)
     \<and> (nb_channels (received_frame env) \<noteq> 0
          \<longrightarrow> out_channels outs' = nb_channels (received_frame env))
     \<and> (nb_channels (received_frame env) = 0
          \<longrightarrow> (\<exists>c. ctx state = Some c
                \<and> out_channels outs' = ctx_nb_channels (context_after_decode env c)))
     \<and> (\<forall>i ch. 0 \<le> i \<and> i < out_frames outs' \<and> 0 \<le> ch \<and> ch < out_channels outs'
          \<longrightarrow> i * out_channels outs' + ch < int (length output_buf')
            \<and> ch < int (length (extended_data (received_frame env)))
            \<and> i < int (length (extended_data (received_frame env) ! nat ch))
            \<and> output_buf' ! nat (i * out_channels outs' + ch)
                = extended_data (received_frame env) ! nat ch ! nat i)"
proof (intro conjI impI allI)
  note ret = decode_packet_Inr [OF assms]
  from ret show "out_frames outs' = nb_samples (received_frame env)" by auto
  from ret show "out_channels outs' = nb_channels (received_frame env)"
    if "nb_channels (received_frame env) \<noteq> 0"
    using that by auto
  from ret show "\<exists>c. ctx state = Some c
                \<and> out_channels outs' = ctx_nb_channels (context_after_decode env c)"
    if "nb_channels (received_frame env) = 0"
    using that by auto
  fix i ch
  assume range: "0 \<le> i \<and> i < out_frames outs' \<and> 0 \<le> ch \<and> ch < out_channels outs'"
  from ret have loop: "interleave_frames (extended_data (received_frame env))
      (out_frames outs') (out_channels outs') 0 output_buf = Inr output_buf'"
    by auto
  have "0 < out_channels outs'" using range by simp
  from interleave_frames_spec [OF loop _ this] range
  show "i * out_channels outs' + ch < int (length output_buf')"
    and "ch < int (length (extended_data (received_frame env)))"
    and "i < int (length (extended_data (received_frame env) ! nat ch))"
    and "output_buf' ! nat (i * out_channels outs' + ch)
                = extended_data (received_frame env) ! nat ch ! nat i"
    by auto
qed

theorem decode_packet_interleave_law_witness:
  "decode_packet ex_decode_env ex_decoder 4096 768 [0, 0, 0, 0, 9] ex_outs
     = Inr (0,
            \<lparr>ctx = Some ex_ctx, frame = Some blank_frame,
             packet = Some \<lparr>pkt_data = 4096, pkt_size = 768\<rparr>\<rparr>,
            [1, 3, 2, 4, 9],
            \<lparr>out_frames = 2, out_sample_rate = 48000, out_channels = 2\<rparr>)
   \<and> nb_samples (received_frame ex_decode_env) = 2
   \<and> nb_channels (received_frame ex_decode_env) = 2
   \<and> [1, 3, 2, 4, 9 :: float32] ! nat (1 * 2 + 0)
       = extended_data (received_frame ex_decode_env) ! nat 0 ! nat 1"
  using decode_packet_interleave_law [OF ex_decode] ex_decode
  by (simp add: ex_decode_env_def ex_frame_def)

subsection \<open>The write bound\<close>

lemma decode_packet_other_buffer:
  assumes "decode_packet env state input_buf input_size output_buf outs
             = Inr (0, state', output_buf', outs')"
    and "interleave_frames (extended_data (received_frame env)) (out_frames outs')
            (out_channels outs') 0 buf = Inr buf'"
  shows "decode_packet env state input_buf input_size buf outs = Inr (0, state', buf', outs')"
  using assms
  by (auto simp: decode_packet_def Let_def avcodec_send_packet_def avcodec_receive_frame_def
        av_packet_unref_def av_frame_unref_def blank_packet_def ctx_field_def
      split: option.splits if_splits sum.splits)

text \<open>
  C10. Output-write bound of the decoder: when \<open>decode_packet\<close> returns 0 and reports
  \<open>F\<close> and \<open>C\<close>, the output buffer keeps its length, every float at index \<open>F * C\<close>
  or beyond is as it was, and the same call on the buffer cut to exactly \<open>F * C\<close>
  floats returns 0 with the same first \<open>F * C\<close> floats: such a buffer suffices.
\<close>

theorem decode_packet_write_bound:
  assumes "decode_packet env state input_buf input_size output_buf outs
             = Inr (0, state', output_buf', outs')"
    and "n = nat (out_frames outs' * out_channels outs')"
  shows "length output_buf' = length output_buf
     \<and> drop n output_buf' = drop n output_buf
     \<and> decode_packet env state input_buf input_size (take n output_buf) outs
         = Inr (0, state', take n output_buf', outs')"
proof -
  let ?planes = "extended_data (received_frame env)"
  let ?F = "out_frames outs'"
  let ?C = "out_channels outs'"
  from decode_packet_Inr [OF assms(1)]
  have loop: "interleave_frames ?planes ?F ?C 0 output_buf = Inr output_buf'"
    by auto
  have "length output_buf' = length output_buf \<and> drop n output_buf' = drop n output_buf
     \<and> interleave_frames ?planes ?F ?C 0 (take n output_buf) = Inr (take n output_buf')"
  proof (cases "0 < ?F \<and> 0 < ?C")
    case False
    then have noop: "interleave_frames ?planes ?F ?C 0 buf = Inr buf" for buf
      using interleave_frames_done [of ?F 0] interleave_frames_no_channels [of ?C]
      by (cases "?F \<le> 0") auto
    from loop noop [of output_buf] have "output_buf' = output_buf" by simp
    with noop show ?thesis by simp
  next
    case True
    then have pos: "0 < ?C" and n: "?F * ?C \<le> int n" "int n = ?F * ?C"
      using assms(2) by auto
    from interleave_frames_spec [OF loop _ pos]
    have len: "length output_buf' = length output_buf"
      and same: "\<And>k. ?F * ?C \<le> k \<Longrightarrow> 0 \<le> k \<Longrightarrow> output_buf' ! nat k = output_buf ! nat k"
      by auto
    have "drop n output_buf' = drop n output_buf"
    proof (rule nth_equalityI)
      show "length (drop n output_buf') = length (drop n output_buf)" using len by simp
    next
      fix j assume "j < length (drop n output_buf')"
      then have "n + j < length output_buf'" by simp
      moreover have "output_buf' ! nat (int (n + j)) = output_buf ! nat (int (n + j))"
        using n by (intro same) auto
      then have "output_buf' ! (n + j) = output_buf ! (n + j)"
        by (simp only: nat_int)
      ultimately show "drop n output_buf' ! j = drop n output_buf ! j"
        using len by simp
    qed
    with len interleave_frames_take [OF loop _ pos n(1)] show ?thesis by simp
  qed
  with decode_packet_other_buffer [OF assms(1)] show ?thesis by simp
qed

theorem decode_packet_write_bound_witness:
  "decode_packet ex_decode_env ex_decoder 4096 768 [0, 0, 0, 0, 9] ex_outs
     = Inr (0,
            \<lparr>ctx = Some ex_ctx, frame = Some blank_frame,
             packet = Some \<lparr>pkt_data = 4096, pkt_size = 768\<rparr>\<rparr>,
            [1, 3, 2, 4, 9],
            \<lparr>out_frames = 2, out_sample_rate = 48000, out_channels = 2\<rparr>)
   \<and> drop 4 [1, 3, 2, 4, 9 :: float32] = drop 4 [0, 0, 0, 0, 9]
   \<and> decode_packet ex_decode_env ex_decoder 4096 768 [0, 0, 0, 0] ex_outs
     = Inr (0,
            \<lparr>ctx = Some ex_ctx, frame = Some blank_frame,
             packet = Some \<lparr>pkt_data = 4096, pkt_size = 768\<rparr>\<rparr>,
            [1, 3, 2, 4],
            \<lparr>out_frames = 2, out_sample_rate = 48000, out_channels = 2\<rparr>)"
  using decode_packet_write_bound [OF ex_decode, of 4] ex_decode
  by simp


subsection \<open>Error propagation\<close>

text \<open>
  Not every call returns what the codec answers. On the session \<open>init_decoder\<close>
  returns when \<open>av_packet_alloc\<close> fails, the call dereferences the null packet holder
  (lines 62 and 63), whatever the codec would answer; and on an output buffer of three
  floats, with a frame of two samples for two channels, both codec calls succeed and the
  call writes outside the buffer instead of returning 0.
\<close>

theorem decode_packet_faults:
  "init_decoder (ex_init_env\<lparr>packet_alloc_ok := False\<rparr>) 86056 48000 2
     = Inr (Some (ex_created\<lparr>packet := None\<rparr>),
            [Alloc SessionStruct, Alloc CodecContext, Alloc FrameHolder])
   \<and> send_packet_ret ex_rejecting_env \<lparr>pkt_data = 4096, pkt_size = 768\<rparr> = -22
   \<and> decode_packet ex_rejecting_env (ex_created\<lparr>packet := None\<rparr>) 4096 768
        [0, 0, 0, 0, 9] ex_outs = Inl NullDeref
   \<and> 0 \<le> send_packet_ret ex_decode_env \<lparr>pkt_data = 4096, pkt_size = 768\<rparr>
   \<and> 0 \<le> receive_frame_ret ex_decode_env
   \<and> decode_packet ex_decode_env ex_decoder 4096 768 [0, 0, 0] ex_outs = Inl OutOfBounds"
  by (simp add: ex_init_env_def ex_created_def ex_rejecting_env_def ex_defs init_decoder_def
        avcodec_alloc_context3_def avcodec_open2_def av_channel_layout_default_def
        av_frame_alloc_def av_packet_alloc_def alloc_event_def decode_eval)

text \<open>
  C4 (amended). Decode error propagation and atomicity, on a session that has its
  packet holder: when the submission of the packet fails, \<open>decode_packet\<close> returns that
  code of the codec, and when the submission succeeds and the reception of the frame
  fails, it returns that code; in both cases the output buffer and the three out-cells
  are as they were. On a session that has its packet holder, frame holder and context,
  when both codec calls succeed and the planes of the decoded frame and the output
  buffer hold the \<open>F\<close> samples of each of the \<open>C\<close> channels, the call returns 0 and
  reports \<open>F\<close> and \<open>C\<close>. A call that returns, returns 0 exactly when both the
  submission and the reception succeeded.
\<close>

theorem decode_packet_error_propagation:
  "(packet state = Some p0
      \<and> send_packet_ret env \<lparr>pkt_data = input_buf, pkt_size = input_size\<rparr> < 0
    \<longrightarrow> (\<exists>state'. decode_packet env state input_buf input_size output_buf outs
           = Inr (send_packet_ret env \<lparr>pkt_data = input_buf, pkt_size = input_size\<rparr>,
                  state', output_buf, outs)))
   \<and> (packet state = Some p0
      \<and> 0 \<le> send_packet_ret env \<lparr>pkt_data = input_buf, pkt_size = input_size\<rparr>
      \<and> receive_frame_ret env < 0
    \<longrightarrow> (\<exists>state'. decode_packet env state input_buf input_size output_buf outs
           = Inr (receive_frame_ret env, state', output_buf, outs)))
   \<and> (packet state = Some p0 \<and> frame state = Some f0 \<and> ctx state = Some c0
      \<and> 0 \<le> send_packet_ret env \<lparr>pkt_data = input_buf, pkt_size = input_size\<rparr>
      \<and> 0 \<le> receive_frame_ret env
      \<and> F = nb_samples (received_frame env)
      \<and> C = (if nb_channels (received_frame env) = 0
              then ctx_nb_channels (context_after_decode env c0)
              else nb_channels (received_frame env))
      \<and> F * C \<le> int (length output_buf)
      \<and> C \<le> int (length (extended_data (received_frame env)))
      \<and> (\<forall>c. 0 \<le> c \<and> c < C
            \<longrightarrow> F \<le> int (length (extended_data (received_frame env) ! nat c)))
    \<longrightarrow> (\<exists>state' output_buf' rate.
           decode_packet env state input_buf input_size output_buf outs
             = Inr (0, state', output_buf',
                    \<lparr>out_frames = F, out_sample_rate = rate, out_channels = C\<rparr>)))
   \<and> (\<forall>r state' output_buf' outs'.
        decode_packet env state input_buf input_size output_buf outs
          = Inr (r, state', output_buf', outs')
        \<longrightarrow> (r = 0 \<longleftrightarrow>
               0 \<le> send_packet_ret env \<lparr>pkt_data = input_buf, pkt_size = input_size\<rparr>
               \<and> 0 \<le> receive_frame_ret env))"
proof (intro conjI impI allI)
  assume "packet state = Some p0
      \<and> send_packet_ret env \<lparr>pkt_data = input_buf, pkt_size = input_size\<rparr> < 0"
  then show "\<exists>state'. decode_packet env state input_buf input_size output_buf outs
           = Inr (send_packet_ret env \<lparr>pkt_data = input_buf, pkt_size = input_size\<rparr>,
                  state', output_buf, outs)"
    using decode_packet_send_fails [of state p0 env input_buf input_size output_buf outs]
    by blast
next
  assume "packet state = Some p0
      \<and> 0 \<le> send_packet_ret env \<lparr>pkt_data = input_buf, pkt_size = input_size\<rparr>
      \<and> receive_frame_ret env < 0"
  then show "\<exists>state'. decode_packet env state input_buf input_size output_buf outs
           = Inr (receive_frame_ret env, state', output_buf, outs)"
    using decode_packet_receive_fails [of state p0 env input_buf input_size output_buf outs]
    by blast
next
  assume a: "packet state = Some p0 \<and> frame state = Some f0 \<and> ctx state = Some c0
      \<and> 0 \<le> send_packet_ret env \<lparr>pkt_data = input_buf, pkt_size = input_size\<rparr>
      \<and> 0 \<le> receive_frame_ret env
      \<and> F = nb_samples (received_frame env)
      \<and> C = (if nb_channels (received_frame env) = 0
              then ctx_nb_channels (context_after_decode env c0)
              else nb_channels (received_frame env))
      \<and> F * C \<le> int (length output_buf)
      \<and> C \<le> int (length (extended_data (received_frame env)))
      \<and> (\<forall>c. 0 \<le> c \<and> c < C
            \<longrightarrow> F \<le> int (length (extended_data (received_frame env) ! nat c)))"
  then have "\<exists>out'. interleave_frames (extended_data (received_frame env)) F C 0 output_buf
      = Inr out' \<and> length out' = length output_buf"
    by (intro interleave_frames_total) auto
  then obtain out' where
    "interleave_frames (extended_data (received_frame env))
       (nb_samples (received_frame env)) C 0 output_buf = Inr out'"
    using a by auto
  from decode_packet_succeeds [OF _ _ _ _ _ _ this, of state p0 f0 c0 input_buf input_size outs] a
  show "\<exists>state' output_buf' rate.
           decode_packet env state input_buf input_size output_buf outs
             = Inr (0, state', output_buf',
                    \<lparr>out_frames = F, out_sample_rate = rate, out_channels = C\<rparr>)"
    by blast
next
  fix r state' output_buf' outs'
  assume "decode_packet env state input_buf input_size output_buf outs
          = Inr (r, state', output_buf', outs')"
  from decode_packet_Inr [OF this]
  show "r = 0 \<longleftrightarrow>
               0 \<le> send_packet_ret env \<lparr>pkt_data = input_buf, pkt_size = input_size\<rparr>
               \<and> 0 \<le> receive_frame_ret env"
    by auto
qed

theorem decode_packet_error_propagation_witness:
  "decode_packet ex_rejecting_env ex_decoder 4096 768 [0, 0, 0, 0, 9] ex_outs
     = Inr (-22, ex_decoder\<lparr>packet := Some \<lparr>pkt_data = 4096, pkt_size = 768\<rparr>\<rparr>,
            [0, 0, 0, 0, 9], ex_outs)
   \<and> decode_packet (ex_decode_env\<lparr>receive_frame_ret := -11\<rparr>) ex_decoder 4096 768
       [0, 0, 0, 0, 9] ex_outs
     = Inr (-11, ex_decoder\<lparr>packet := Some \<lparr>pkt_data = 4096, pkt_size = 768\<rparr>\<rparr>,
            [0, 0, 0, 0, 9], ex_outs)
   \<and> decode_packet ex_decode_env ex_decoder 4096 768 [0, 0, 0, 0, 9] ex_outs
     = Inr (0, ex_decoder\<lparr>packet := Some \<lparr>pkt_data = 4096, pkt_size = 768\<rparr>\<rparr>,
            [1, 3, 2, 4, 9],
            \<lparr>out_frames = 2, out_sample_rate = 48000, out_channels = 2\<rparr>)
   \<and> (2 :: int) * 2 \<le> int (length [0, 0, 0, 0, 9 :: float32])"
proof -
  have planes: "\<forall>c. 0 \<le> c \<and> c < (2 :: int)
      \<longrightarrow> 2 \<le> int (length (extended_data (received_frame ex_decode_env) ! nat c))"
  proof (intro allI impI)
    fix c :: int assume "0 \<le> c \<and> c < 2"
    then have "c = 0 \<or> c = 1" by auto
    then show "2 \<le> int (length (extended_data (received_frame ex_decode_env) ! nat c))"
      by (auto simp: ex_decode_env_def ex_frame_def)
  qed
  from
    decode_packet_error_propagation [where state = ex_decoder and ?p0.0 = blank_packet
      and ?f0.0 = blank_frame and ?c0.0 = ex_ctx and F = 2 and C = 2
      and input_buf = 4096 and input_size = 768 and env = ex_rejecting_env
      and output_buf = "[0, 0, 0, 0, 9]" and outs = ex_outs]
    decode_packet_error_propagation [where state = ex_decoder and ?p0.0 = blank_packet
      and ?f0.0 = blank_frame and ?c0.0 = ex_ctx and F = 2 and C = 2
      and input_buf = 4096 and input_size = 768
      and env = "ex_decode_env\<lparr>receive_frame_ret := -11\<rparr>"
      and output_buf = "[0, 0, 0, 0, 9]" and outs = ex_outs]
    decode_packet_error_propagation [where state = ex_decoder and ?p0.0 = blank_packet
      and ?f0.0 = blank_frame and ?c0.0 = ex_ctx and F = 2 and C = 2
      and input_buf = 4096 and input_size = 768 and env = ex_decode_env
      and output_buf = "[0, 0, 0, 0, 9]" and outs = ex_outs]
    planes
  show ?thesis
    by (simp add: ex_defs ex_rejecting_env_def decode_eval)
qed

subsection \<open>The fallback of the sample rate and the channel count\<close>




section \<open>Properties of the encoder\<close>

lemmas ex_enc_defs = ex_ctx_def ex_enc_frame_def ex_encoder_def ex_filled_frame_def
  ex_encode_env_def ex_eperm_env_def

lemmas encode_eval = encode_samples_def Let_def avcodec_send_frame_def
  avcodec_receive_packet_def av_packet_unref_def blank_packet_def memcpy_def
  deinterleave_channels.simps deinterleave_samples.simps rd_def wr_def

lemma ex_encode:
  "encode_samples ex_encode_env ex_encoder [1, 3, 2, 4, 7, 7] 2 [0, 0, 0, 0] 4
     = Inr (3, ex_encoder\<lparr>enc_frame := Some ex_filled_frame\<rparr>, [10, 20, 30, 0])"
  by (simp add: ex_enc_defs encode_eval)

lemma ex_encode_short:
  "encode_samples ex_encode_env ex_encoder [1, 3, 2, 4] 2 [0, 0, 0, 0] 4
     = Inr (3, ex_encoder\<lparr>enc_frame := Some ex_filled_frame\<rparr>, [10, 20, 30, 0])"
  by (simp add: ex_enc_defs encode_eval)

lemma encode_samples_Inr:
  assumes "encode_samples env state input_buf num_frames output_buf output_buf_size
             = Inr (r, state', out')"
  shows "\<exists>f planes f1.
     enc_frame state = Some f
     \<and> deinterleave_channels input_buf (nb_channels f) num_frames 0 (extended_data f) = Inr planes
     \<and> f1 = f\<lparr>extended_data := planes, nb_samples := num_frames\<rparr>
     \<and> enc_frame state' = Some f1 \<and> enc_ctx state' = enc_ctx state
     \<and> (send_frame_ret env f1 < 0 \<and> r = send_frame_ret env f1 \<and> out' = output_buf
           \<and> enc_packet state' = enc_packet state
         \<or> 0 \<le> send_frame_ret env f1 \<and> receive_packet_ret env < 0
           \<and> r = receive_packet_ret env \<and> out' = output_buf
           \<and> enc_packet state' = map_option (\<lambda>p. blank_packet) (enc_packet state)
         \<or> 0 \<le> send_frame_ret env f1 \<and> 0 \<le> receive_packet_ret env
           \<and> enc_packet state \<noteq> None
           \<and> output_buf_size < pkt_size (received_packet env)
           \<and> r = -1 \<and> out' = output_buf
           \<and> enc_packet state' = Some (received_packet env)
         \<or> 0 \<le> send_frame_ret env f1 \<and> 0 \<le> receive_packet_ret env
           \<and> enc_packet state \<noteq> None
           \<and> pkt_size (received_packet env) \<le> output_buf_size
           \<and> r = pkt_size (received_packet env)
           \<and> memcpy output_buf (received_bytes env) (pkt_size (received_packet env)) = Inr out'
           \<and> enc_packet state' = Some blank_packet)"
  using assms
  by (auto simp: encode_samples_def Let_def avcodec_send_frame_def avcodec_receive_packet_def
        av_packet_unref_def
      split: option.splits if_splits sum.splits)

lemma encode_samples_capacity:
  assumes "enc_frame state = Some f"
    and "deinterleave_channels input_buf (nb_channels f) num_frames 0 (extended_data f) = Inr planes"
    and "enc_packet state = Some p0"
    and "0 \<le> send_frame_ret env (f\<lparr>extended_data := planes, nb_samples := num_frames\<rparr>)"
    and "0 \<le> receive_packet_ret env"
    and "output_buf_size < pkt_size (received_packet env)"
  shows "encode_samples env state input_buf num_frames output_buf output_buf_size
     = Inr (-1, state\<lparr>enc_frame := Some (f\<lparr>extended_data := planes, nb_samples := num_frames\<rparr>),
                      enc_packet := Some (received_packet env)\<rparr>, output_buf)"
  using assms
  by (simp add: encode_samples_def Let_def avcodec_send_frame_def avcodec_receive_packet_def
        av_packet_unref_def)

lemma encode_samples_send_fails:
  assumes "enc_frame state = Some f"
    and "deinterleave_channels input_buf (nb_channels f) num_frames 0 (extended_data f) = Inr planes"
    and "send_frame_ret env (f\<lparr>extended_data := planes, nb_samples := num_frames\<rparr>) < 0"
  shows "encode_samples env state input_buf num_frames output_buf output_buf_size
     = Inr (send_frame_ret env (f\<lparr>extended_data := planes, nb_samples := num_frames\<rparr>),
            state\<lparr>enc_frame := Some (f\<lparr>extended_data := planes, nb_samples := num_frames\<rparr>)\<rparr>,
            output_buf)"
  using assms
  by (simp add: encode_samples_def Let_def avcodec_send_frame_def)

lemma encode_samples_receive_fails:
  assumes "enc_frame state = Some f"
    and "deinterleave_channels input_buf (nb_channels f) num_frames 0 (extended_data f) = Inr planes"
    and "0 \<le> send_frame_ret env (f\<lparr>extended_data := planes, nb_samples := num_frames\<rparr>)"
    and "receive_packet_ret env < 0"
  shows "encode_samples env state input_buf num_frames output_buf output_buf_size
     = Inr (receive_packet_ret env,
            state\<lparr>enc_frame := Some (f\<lparr>extended_data := planes, nb_samples := num_frames\<rparr>),
                  enc_packet := map_option (\<lambda>p. blank_packet) (enc_packet state)\<rparr>,
            output_buf)"
  using assms
  by (cases "enc_packet state")
     (simp_all add: encode_samples_def Let_def avcodec_send_frame_def
        avcodec_receive_packet_def av_packet_unref_def)

lemma rd_take: "k < int m \<Longrightarrow> rd (take m xs) k = rd xs k"
  by (auto simp: rd_def)

lemma deinterleave_samples_done:
  "num_frames \<le> i \<Longrightarrow>
     deinterleave_samples input_buf channels num_frames ch i channel_data = Inr channel_data"
  by (simp add: deinterleave_samples.simps)

lemma deinterleave_channels_done:
  "channels \<le> ch \<Longrightarrow> deinterleave_channels input_buf channels num_frames ch planes = Inr planes"
  by (simp add: deinterleave_channels.simps)

lemma deinterleave_samples_take:
  "0 \<le> i \<Longrightarrow> 0 \<le> ch \<Longrightarrow> ch < channels \<Longrightarrow> num_frames * channels \<le> int m \<Longrightarrow>
     deinterleave_samples (take m input_buf) channels num_frames ch i channel_data
       = deinterleave_samples input_buf channels num_frames ch i channel_data"
proof (induction input_buf channels num_frames ch i channel_data
         rule: deinterleave_samples.induct)
  case (1 input_buf channels num_frames ch i channel_data)
  show ?case
  proof (cases "i < num_frames")
    case False
    then show ?thesis by (simp add: deinterleave_samples_done)
  next
    case True
    have "(i + 1) * channels \<le> num_frames * channels"
      using True "1.prems" by (intro mult_right_mono) auto
    then have "i * channels + ch < int m"
      using "1.prems" by (simp add: algebra_simps)
    then have r: "rd (take m input_buf) (i * channels + ch) = rd input_buf (i * channels + ch)"
      by (rule rd_take)
    show ?thesis
    proof (cases "rd input_buf (i * channels + ch)")
      case (Inl e)
      with r True show ?thesis
        by (simp add: deinterleave_samples.simps [of "take m input_buf" channels num_frames ch i]
              deinterleave_samples.simps [of input_buf channels num_frames ch i])
    next
      case (Inr v)
      show ?thesis
      proof (cases "wr channel_data i v")
        case (Inl e)
        with r Inr True show ?thesis
          by (simp add: deinterleave_samples.simps [of "take m input_buf" channels num_frames ch i]
              deinterleave_samples.simps [of input_buf channels num_frames ch i])
      next
        case w: (Inr channel_data')
        from "1.IH" [OF True Inr w] "1.prems"
        have "deinterleave_samples (take m input_buf) channels num_frames ch (i + 1) channel_data'
          = deinterleave_samples input_buf channels num_frames ch (i + 1) channel_data'"
          by simp
        with r Inr w True show ?thesis
          by (simp add: deinterleave_samples.simps [of "take m input_buf" channels num_frames ch i]
              deinterleave_samples.simps [of input_buf channels num_frames ch i])
      qed
    qed
  qed
qed


lemma deinterleave_channels_take:
  "0 \<le> ch \<Longrightarrow> num_frames * channels \<le> int m \<Longrightarrow>
     deinterleave_channels (take m input_buf) channels num_frames ch planes
       = deinterleave_channels input_buf channels num_frames ch planes"
proof (induction input_buf channels num_frames ch planes rule: deinterleave_channels.induct)
  case (1 input_buf channels num_frames ch planes)
  show ?case
  proof (cases "ch < channels")
    case False
    then show ?thesis by (simp add: deinterleave_channels_done)
  next
    case True
    note unfold = deinterleave_channels.simps [of "take m input_buf" channels num_frames ch]
      deinterleave_channels.simps [of input_buf channels num_frames ch]
    have inner: "deinterleave_samples (take m input_buf) channels num_frames ch 0 cd
        = deinterleave_samples input_buf channels num_frames ch 0 cd" for cd
      using True "1.prems" by (intro deinterleave_samples_take) auto
    show ?thesis
    proof (cases "rd planes ch")
      case (Inl e)
      with True show ?thesis by (simp add: unfold)
    next
      case (Inr channel_data)
      show ?thesis
      proof (cases "deinterleave_samples input_buf channels num_frames ch 0 channel_data")
        case (Inl e)
        with Inr True inner show ?thesis by (simp add: unfold)
      next
        case s: (Inr channel_data')
        from "1.IH" [OF True Inr s] "1.prems"
        have "deinterleave_channels (take m input_buf) channels num_frames (ch + 1)
                (planes[nat ch := channel_data'])
          = deinterleave_channels input_buf channels num_frames (ch + 1)
                (planes[nat ch := channel_data'])"
          by simp
        with Inr s True inner show ?thesis by (simp add: unfold)
      qed
    qed
  qed
qed

lemma deinterleave_channels_no_frames:
  "num_frames \<le> 0 \<Longrightarrow>
     deinterleave_channels xs channels num_frames ch planes
       = deinterleave_channels ys channels num_frames ch planes"
proof (induction ys channels num_frames ch planes rule: deinterleave_channels.induct)
  case (1 ys channels num_frames ch planes)
  show ?case
  proof (cases "ch < channels")
    case False
    then show ?thesis by (simp add: deinterleave_channels_done)
  next
    case True
    note unfold = deinterleave_channels.simps [of xs channels num_frames ch]
      deinterleave_channels.simps [of ys channels num_frames ch]
    have inner: "deinterleave_samples zs channels num_frames ch 0 cd = Inr cd" for zs cd
      using "1.prems" by (simp add: deinterleave_samples_done)
    show ?thesis
    proof (cases "rd planes ch")
      case (Inl e)
      with True show ?thesis by (simp add: unfold)
    next
      case (Inr channel_data)
      from "1.IH" [OF True Inr inner] "1.prems"
      have "deinterleave_channels xs channels num_frames (ch + 1)
                (planes[nat ch := channel_data])
          = deinterleave_channels ys channels num_frames (ch + 1)
                (planes[nat ch := channel_data])"
        by simp
      with Inr True inner show ?thesis by (simp add: unfold)
    qed
  qed
qed

lemma deinterleave_reads_bounded:
  "deinterleave_channels (take (nat (num_frames * channels)) input_buf) channels num_frames 0 planes
     = deinterleave_channels input_buf channels num_frames 0 planes"
proof (cases "0 < num_frames \<and> 0 < channels")
  case True
  then have "num_frames * channels \<le> int (nat (num_frames * channels))" by simp
  then show ?thesis by (intro deinterleave_channels_take) auto
next
  case False
  show ?thesis
  proof (cases "channels \<le> 0")
    case True
    then show ?thesis by (simp add: deinterleave_channels_done)
  next
    case c: False
    with False have "num_frames \<le> 0" by simp
    then show ?thesis by (rule deinterleave_channels_no_frames)
  qed
qed

lemma deinterleave_samples_total:
  "0 \<le> i \<Longrightarrow> 0 \<le> ch \<Longrightarrow> ch < channels \<Longrightarrow> num_frames * channels \<le> int (length input_buf) \<Longrightarrow>
     num_frames \<le> int (length channel_data) \<Longrightarrow>
     \<exists>cd'. deinterleave_samples input_buf channels num_frames ch i channel_data = Inr cd'
        \<and> length cd' = length channel_data"
proof (induction input_buf channels num_frames ch i channel_data
         rule: deinterleave_samples.induct)
  case (1 input_buf channels num_frames ch i channel_data)
  show ?case
  proof (cases "i < num_frames")
    case False
    then show ?thesis by (simp add: deinterleave_samples_done)
  next
    case True
    let ?v = "input_buf ! nat (i * channels + ch)"
    let ?cd = "channel_data[nat i := ?v]"
    have "(i + 1) * channels \<le> num_frames * channels"
      using True "1.prems" by (intro mult_right_mono) auto
    then have "i * channels + ch < int (length input_buf)"
      using "1.prems" by (simp add: algebra_simps)
    moreover have "0 \<le> i * channels + ch" using "1.prems" by simp
    ultimately have r: "rd input_buf (i * channels + ch) = Inr ?v"
      by (simp add: rd_def)
    have w: "wr channel_data i ?v = Inr ?cd"
      using True "1.prems" by (simp add: wr_def)
    from "1.IH" [OF True r w] "1.prems"
    obtain cd' where "deinterleave_samples input_buf channels num_frames ch (i + 1) ?cd = Inr cd'"
      "length cd' = length channel_data"
      by auto
    with True r w show ?thesis
      by (simp add: deinterleave_samples.simps [of input_buf channels num_frames ch i])
  qed
qed

lemma deinterleave_channels_total:
  "0 \<le> ch \<Longrightarrow> num_frames * channels \<le> int (length input_buf) \<Longrightarrow>
     channels \<le> int (length planes) \<Longrightarrow>
     (\<forall>c. 0 \<le> c \<and> c < channels \<longrightarrow> num_frames \<le> int (length (planes ! nat c))) \<Longrightarrow>
     \<exists>planes'. deinterleave_channels input_buf channels num_frames ch planes = Inr planes'"
proof (induction input_buf channels num_frames ch planes rule: deinterleave_channels.induct)
  case (1 input_buf channels num_frames ch planes)
  show ?case
  proof (cases "ch < channels")
    case False
    then show ?thesis by (simp add: deinterleave_channels_done)
  next
    case True
    have r: "rd planes ch = Inr (planes ! nat ch)"
      using True "1.prems" by (simp add: rd_def)
    have enough: "num_frames \<le> int (length (planes ! nat ch))"
      using True "1.prems" by auto
    from deinterleave_samples_total [OF _ "1.prems"(1) True "1.prems"(2) this, of 0]
    obtain cd' where s: "deinterleave_samples input_buf channels num_frames ch 0 (planes ! nat ch)
        = Inr cd'" and len: "length cd' = length (planes ! nat ch)"
      by auto
    have "\<forall>c. 0 \<le> c \<and> c < channels
        \<longrightarrow> num_frames \<le> int (length (planes[nat ch := cd'] ! nat c))"
    proof (intro allI impI)
      fix c assume c: "0 \<le> c \<and> c < channels"
      show "num_frames \<le> int (length (planes[nat ch := cd'] ! nat c))"
      proof (cases "nat c = nat ch")
        case True
        moreover have "nat ch < length planes" using \<open>ch < channels\<close> "1.prems" by simp
        ultimately show ?thesis using len enough by simp
      next
        case False
        with c "1.prems"(4) show ?thesis by simp
      qed
    qed
    with "1.IH" [OF True r s] "1.prems"
    obtain planes' where "deinterleave_channels input_buf channels num_frames (ch + 1)
        (planes[nat ch := cd']) = Inr planes'"
      by auto
    with True r s show ?thesis
      by (simp add: deinterleave_channels.simps [of input_buf channels num_frames ch])
  qed
qed

text \<open>
  C8. Short-frame read bound of the encoder: with \<open>frame_count = n\<close> on a session of
  \<open>C\<close> channels, \<open>encode_samples\<close> reads no input cell at index \<open>n * C\<close> or beyond:
  the call on the input cut to \<open>n * C\<close> samples is the same call. With exactly
  \<open>n * C\<close> samples supplied and planes of at least \<open>n\<close> samples, the de-interleaving
  runs without an out-of-bounds access. Whenever the call returns, the frame handed to
  the encoder has \<open>nb_samples = n\<close>.
\<close>

theorem encode_samples_read_bound:
  assumes "enc_frame state = Some f"
  shows "encode_samples env state (take (nat (num_frames * nb_channels f)) input_buf)
           num_frames output_buf output_buf_size
         = encode_samples env state input_buf num_frames output_buf output_buf_size
     \<and> (0 \<le> num_frames \<and> int (length input_buf) = num_frames * nb_channels f
          \<and> nb_channels f \<le> int (length (extended_data f))
          \<and> (\<forall>c. 0 \<le> c \<and> c < nb_channels f
                 \<longrightarrow> num_frames \<le> int (length (extended_data f ! nat c)))
        \<longrightarrow> (\<exists>planes. deinterleave_channels input_buf (nb_channels f) num_frames 0
                          (extended_data f) = Inr planes))
     \<and> (\<forall>r state' output_buf'.
          encode_samples env state input_buf num_frames output_buf output_buf_size
            = Inr (r, state', output_buf')
          \<longrightarrow> (\<exists>f'. enc_frame state' = Some f' \<and> nb_samples f' = num_frames
                \<and> (r = avcodec_send_frame env f' \<or> 0 \<le> avcodec_send_frame env f')))"
proof (intro conjI impI allI)
  show "encode_samples env state (take (nat (num_frames * nb_channels f)) input_buf)
           num_frames output_buf output_buf_size
         = encode_samples env state input_buf num_frames output_buf output_buf_size"
    using assms by (simp add: encode_samples_def deinterleave_reads_bounded)
next
  assume "0 \<le> num_frames \<and> int (length input_buf) = num_frames * nb_channels f
          \<and> nb_channels f \<le> int (length (extended_data f))
          \<and> (\<forall>c. 0 \<le> c \<and> c < nb_channels f
                 \<longrightarrow> num_frames \<le> int (length (extended_data f ! nat c)))"
  then show "\<exists>planes. deinterleave_channels input_buf (nb_channels f) num_frames 0
                          (extended_data f) = Inr planes"
    by (intro deinterleave_channels_total) auto
next
  fix r state' output_buf'
  assume "encode_samples env state input_buf num_frames output_buf output_buf_size
            = Inr (r, state', output_buf')"
  from encode_samples_Inr [OF this]
  show "\<exists>f'. enc_frame state' = Some f' \<and> nb_samples f' = num_frames
                \<and> (r = avcodec_send_frame env f' \<or> 0 \<le> avcodec_send_frame env f')"
    by (auto simp: avcodec_send_frame_def)
qed

theorem encode_samples_read_bound_witness:
  "enc_frame ex_encoder = Some ex_enc_frame
   \<and> encode_samples ex_encode_env ex_encoder (take (nat (2 * 2)) [1, 3, 2, 4, 7, 7]) 2
        [0, 0, 0, 0] 4
     = encode_samples ex_encode_env ex_encoder [1, 3, 2, 4, 7, 7] 2 [0, 0, 0, 0] 4
   \<and> encode_samples ex_encode_env ex_encoder [1, 3, 2, 4, 7, 7] 2 [0, 0, 0, 0] 4
     = Inr (3, ex_encoder\<lparr>enc_frame := Some ex_filled_frame\<rparr>, [10, 20, 30, 0])
   \<and> nb_samples ex_filled_frame = 2
   \<and> (\<exists>planes. deinterleave_channels [1, 3, 2, 4] 2 2 0 (extended_data ex_enc_frame)
         = Inr planes)"
proof -
  have f: "enc_frame ex_encoder = Some ex_enc_frame" by (simp add: ex_encoder_def)
  have planes: "\<forall>c. 0 \<le> c \<and> c < nb_channels ex_enc_frame
      \<longrightarrow> 2 \<le> int (length (extended_data ex_enc_frame ! nat c))"
  proof (intro allI impI)
    fix c :: int assume "0 \<le> c \<and> c < nb_channels ex_enc_frame"
    then have "c = 0 \<or> c = 1" by (auto simp: ex_enc_frame_def)
    then show "2 \<le> int (length (extended_data ex_enc_frame ! nat c))"
      by (auto simp: ex_enc_frame_def)
  qed
  from encode_samples_read_bound [OF f, of ex_encode_env 2 "[1, 3, 2, 4, 7, 7]" "[0, 0, 0, 0]" 4]
    encode_samples_read_bound [OF f, of ex_encode_env 2 "[1, 3, 2, 4]" "[0, 0, 0, 0]" 4]
    f ex_encode planes
  show ?thesis
    by (simp add: ex_enc_frame_def ex_filled_frame_def)
qed

subsection \<open>The capacity failure\<close>

text \<open>
  A codec that rejects the frame with the code -1 makes \<open>encode_samples\<close> return -1 on
  the submission path, with no packet produced: -1 is not distinct from the codes passed
  through.
\<close>

theorem encode_samples_minus_one_not_distinct:
  "encode_samples ex_eperm_env ex_encoder [1, 3, 2, 4] 2 [0, 0, 0, 0] 4
     = Inr (avcodec_send_frame ex_eperm_env ex_filled_frame,
            ex_encoder\<lparr>enc_frame := Some ex_filled_frame\<rparr>, [0, 0, 0, 0])
   \<and> avcodec_send_frame ex_eperm_env ex_filled_frame = -1
   \<and> \<not> 4 < pkt_size (received_packet ex_eperm_env)"
  by (simp add: ex_enc_defs encode_eval)

text \<open>
  C2 (amended). Capacity failure of the encoder: when the external encoder produces a
  packet whose size exceeds \<open>output_buf_size\<close>, \<open>encode_samples\<close> returns exactly -1 and
  leaves the output buffer as it was. On the other failure paths the call returns the
  code of the codec unchanged and leaves the output buffer as it was: the code of the
  submission when the submission fails, the code of the reception when the submission
  succeeds and the reception fails. Every negative return is one of these three; the
  bridge does not keep a codec code equal to -1 apart from its own.
\<close>

theorem encode_samples_capacity_failure:
  "(enc_frame state = Some f
      \<and> deinterleave_channels input_buf (nb_channels f) num_frames 0 (extended_data f)
          = Inr planes
      \<and> f1 = f\<lparr>extended_data := planes, nb_samples := num_frames\<rparr>
      \<and> enc_packet state = Some p0
      \<and> 0 \<le> avcodec_send_frame env f1 \<and> 0 \<le> receive_packet_ret env
      \<and> output_buf_size < pkt_size (received_packet env)
    \<longrightarrow> encode_samples env state input_buf num_frames output_buf output_buf_size
          = Inr (-1, state\<lparr>enc_frame := Some f1, enc_packet := Some (received_packet env)\<rparr>,
                 output_buf))
   \<and> (enc_frame state = Some f
      \<and> deinterleave_channels input_buf (nb_channels f) num_frames 0 (extended_data f)
          = Inr planes
      \<and> f1 = f\<lparr>extended_data := planes, nb_samples := num_frames\<rparr>
      \<and> avcodec_send_frame env f1 < 0
    \<longrightarrow> encode_samples env state input_buf num_frames output_buf output_buf_size
          = Inr (avcodec_send_frame env f1, state\<lparr>enc_frame := Some f1\<rparr>, output_buf))
   \<and> (enc_frame state = Some f
      \<and> deinterleave_channels input_buf (nb_channels f) num_frames 0 (extended_data f)
          = Inr planes
      \<and> f1 = f\<lparr>extended_data := planes, nb_samples := num_frames\<rparr>
      \<and> 0 \<le> avcodec_send_frame env f1 \<and> receive_packet_ret env < 0
    \<longrightarrow> encode_samples env state input_buf num_frames output_buf output_buf_size
          = Inr (receive_packet_ret env,
                 state\<lparr>enc_frame := Some f1,
                       enc_packet := map_option (\<lambda>p. blank_packet) (enc_packet state)\<rparr>,
                 output_buf))
   \<and> (\<forall>r state' output_buf'.
        encode_samples env state input_buf num_frames output_buf output_buf_size
          = Inr (r, state', output_buf') \<and> r < 0
        \<longrightarrow> output_buf' = output_buf
          \<and> (\<exists>f1. enc_frame state' = Some f1
               \<and> (avcodec_send_frame env f1 < 0 \<and> r = avcodec_send_frame env f1
                  \<or> 0 \<le> avcodec_send_frame env f1 \<and> receive_packet_ret env < 0
                    \<and> r = receive_packet_ret env
                  \<or> 0 \<le> avcodec_send_frame env f1 \<and> 0 \<le> receive_packet_ret env
                    \<and> output_buf_size < pkt_size (received_packet env) \<and> r = -1)))"
proof (intro conjI impI allI)
  assume "enc_frame state = Some f
      \<and> deinterleave_channels input_buf (nb_channels f) num_frames 0 (extended_data f)
          = Inr planes
      \<and> f1 = f\<lparr>extended_data := planes, nb_samples := num_frames\<rparr>
      \<and> enc_packet state = Some p0
      \<and> 0 \<le> avcodec_send_frame env f1 \<and> 0 \<le> receive_packet_ret env
      \<and> output_buf_size < pkt_size (received_packet env)"
  then show "encode_samples env state input_buf num_frames output_buf output_buf_size
          = Inr (-1, state\<lparr>enc_frame := Some f1, enc_packet := Some (received_packet env)\<rparr>,
                 output_buf)"
    using encode_samples_capacity [of state f input_buf num_frames planes p0 env output_buf_size
        output_buf]
    by (auto simp: avcodec_send_frame_def)
next
  assume "enc_frame state = Some f
      \<and> deinterleave_channels input_buf (nb_channels f) num_frames 0 (extended_data f)
          = Inr planes
      \<and> f1 = f\<lparr>extended_data := planes, nb_samples := num_frames\<rparr>
      \<and> avcodec_send_frame env f1 < 0"
  then show "encode_samples env state input_buf num_frames output_buf output_buf_size
          = Inr (avcodec_send_frame env f1, state\<lparr>enc_frame := Some f1\<rparr>, output_buf)"
    using encode_samples_send_fails [of state f input_buf num_frames planes env output_buf
        output_buf_size]
    by (auto simp: avcodec_send_frame_def)
next
  assume "enc_frame state = Some f
      \<and> deinterleave_channels input_buf (nb_channels f) num_frames 0 (extended_data f)
          = Inr planes
      \<and> f1 = f\<lparr>extended_data := planes, nb_samples := num_frames\<rparr>
      \<and> 0 \<le> avcodec_send_frame env f1 \<and> receive_packet_ret env < 0"
  then show "encode_samples env state input_buf num_frames output_buf output_buf_size
          = Inr (receive_packet_ret env,
                 state\<lparr>enc_frame := Some f1,
                       enc_packet := map_option (\<lambda>p. blank_packet) (enc_packet state)\<rparr>,
                 output_buf)"
    using encode_samples_receive_fails [of state f input_buf num_frames planes env output_buf
        output_buf_size]
    by (auto simp: avcodec_send_frame_def)
next
  fix r state' output_buf'
  assume a: "encode_samples env state input_buf num_frames output_buf output_buf_size
          = Inr (r, state', output_buf') \<and> r < 0"
  then have ret: "encode_samples env state input_buf num_frames output_buf output_buf_size
          = Inr (r, state', output_buf')" and neg: "r < 0"
    by simp_all
  from encode_samples_Inr [OF ret]
  obtain f planes f1 where f1: "enc_frame state' = Some f1"
    and paths: "send_frame_ret env f1 < 0 \<and> r = send_frame_ret env f1 \<and> output_buf' = output_buf
         \<or> 0 \<le> send_frame_ret env f1 \<and> receive_packet_ret env < 0
           \<and> r = receive_packet_ret env \<and> output_buf' = output_buf
         \<or> 0 \<le> send_frame_ret env f1 \<and> 0 \<le> receive_packet_ret env
           \<and> output_buf_size < pkt_size (received_packet env)
           \<and> r = -1 \<and> output_buf' = output_buf
         \<or> r = pkt_size (received_packet env)
           \<and> memcpy output_buf (received_bytes env) (pkt_size (received_packet env))
               = Inr output_buf'"
    by blast
  have "\<not> (r = pkt_size (received_packet env)
           \<and> memcpy output_buf (received_bytes env) (pkt_size (received_packet env))
               = Inr output_buf')"
    using neg by (auto simp: memcpy_def)
  with paths have same: "output_buf' = output_buf"
    and which: "send_frame_ret env f1 < 0 \<and> r = send_frame_ret env f1
         \<or> 0 \<le> send_frame_ret env f1 \<and> receive_packet_ret env < 0
           \<and> r = receive_packet_ret env
         \<or> 0 \<le> send_frame_ret env f1 \<and> 0 \<le> receive_packet_ret env
           \<and> output_buf_size < pkt_size (received_packet env) \<and> r = -1"
    by blast+
  from same show "output_buf' = output_buf" .
  from f1 which show "\<exists>f1. enc_frame state' = Some f1
               \<and> (avcodec_send_frame env f1 < 0 \<and> r = avcodec_send_frame env f1
                  \<or> 0 \<le> avcodec_send_frame env f1 \<and> receive_packet_ret env < 0
                    \<and> r = receive_packet_ret env
                  \<or> 0 \<le> avcodec_send_frame env f1 \<and> 0 \<le> receive_packet_ret env
                    \<and> output_buf_size < pkt_size (received_packet env) \<and> r = -1)"
    unfolding avcodec_send_frame_def by blast
qed

theorem encode_samples_capacity_failure_witness:
  "encode_samples ex_encode_env ex_encoder [1, 3, 2, 4] 2 [0, 0] 2
     = Inr (-1, ex_encoder\<lparr>enc_frame := Some ex_filled_frame,
                 enc_packet := Some \<lparr>pkt_data = 8192, pkt_size = 3\<rparr>\<rparr>, [0, 0])
   \<and> (2 :: int) < pkt_size (received_packet ex_encode_env)
   \<and> 0 \<le> avcodec_send_frame ex_encode_env ex_filled_frame
   \<and> 0 \<le> receive_packet_ret ex_encode_env
   \<and> deinterleave_channels [1, 3, 2, 4] (nb_channels ex_enc_frame) 2 0
        (extended_data ex_enc_frame) = Inr (extended_data ex_filled_frame)
   \<and> avcodec_send_frame ex_eperm_env ex_filled_frame < 0
   \<and> encode_samples ex_eperm_env ex_encoder [1, 3, 2, 4] 2 [0, 0] 2
     = Inr (avcodec_send_frame ex_eperm_env ex_filled_frame,
            ex_encoder\<lparr>enc_frame := Some ex_filled_frame\<rparr>, [0, 0])
   \<and> receive_packet_ret (ex_encode_env\<lparr>receive_packet_ret := -11\<rparr>) < 0
   \<and> encode_samples (ex_encode_env\<lparr>receive_packet_ret := -11\<rparr>) ex_encoder [1, 3, 2, 4] 2
        [0, 0] 2
     = Inr (-11, ex_encoder\<lparr>enc_frame := Some ex_filled_frame\<rparr>, [0, 0])"
  using
    encode_samples_capacity_failure [where state = ex_encoder and f = ex_enc_frame
      and input_buf = "[1, 3, 2, 4]" and num_frames = 2
      and planes = "extended_data ex_filled_frame"
      and ?f1.0 = ex_filled_frame and ?p0.0 = blank_packet and env = ex_encode_env
      and output_buf_size = 2 and output_buf = "[0, 0]"]
    encode_samples_capacity_failure [where state = ex_encoder and f = ex_enc_frame
      and input_buf = "[1, 3, 2, 4]" and num_frames = 2
      and planes = "extended_data ex_filled_frame"
      and ?f1.0 = ex_filled_frame and ?p0.0 = blank_packet and env = ex_eperm_env
      and output_buf_size = 2 and output_buf = "[0, 0]"]
    encode_samples_capacity_failure [where state = ex_encoder and f = ex_enc_frame
      and input_buf = "[1, 3, 2, 4]" and num_frames = 2
      and planes = "extended_data ex_filled_frame"
      and ?f1.0 = ex_filled_frame and ?p0.0 = blank_packet
      and env = "ex_encode_env\<lparr>receive_packet_ret := -11\<rparr>"
      and output_buf_size = 2 and output_buf = "[0, 0]"]
  by (simp add: ex_enc_defs encode_eval)

section \<open>What the session holds after a call\<close>

text \<open>
  After a successful \<open>decode_packet\<close> the data pointer of the scratch packet is the
  caller's input pointer (here the address 4096).
\<close>

theorem decode_packet_retains_input_pointer:
  "decode_packet ex_decode_env ex_decoder 4096 768 [0, 0, 0, 0, 9] ex_outs
     = Inr (0, ex_decoder\<lparr>packet := Some \<lparr>pkt_data = 4096, pkt_size = 768\<rparr>\<rparr>,
            [1, 3, 2, 4, 9],
            \<lparr>out_frames = 2, out_sample_rate = 48000, out_channels = 2\<rparr>)
   \<and> map_option pkt_data (packet (ex_decoder\<lparr>packet := Some \<lparr>pkt_data = 4096, pkt_size = 768\<rparr>\<rparr>))
       = Some 4096"
  by (simp add: ex_defs decode_eval)

text \<open>
  C7 (amended). After \<open>decode_packet\<close> returns, the scratch packet still holds the
  caller's input pointer and size (lines 63 and 64; nothing resets it before the
  return), and the scratch frame is as before the call or blank. The packet is reset at
  the start of the next call: the call does not depend on what the holder held. After
  \<open>encode_samples\<close> returns, the scratch packet is as before the call, blank, or the
  packet of the codec: never a buffer of the caller.
\<close>

theorem session_pointers_after_call:
  "(\<forall>r state' output_buf' outs'.
      decode_packet env state input_buf input_size output_buf outs
        = Inr (r, state', output_buf', outs')
      \<longrightarrow> packet state' = Some \<lparr>pkt_data = input_buf, pkt_size = input_size\<rparr>
        \<and> (frame state' = frame state
            \<or> frame state' = map_option (\<lambda>f. blank_frame) (frame state)))
   \<and> decode_packet env (state\<lparr>packet := Some q\<rparr>) input_buf input_size output_buf outs
       = decode_packet env (state\<lparr>packet := Some q'\<rparr>) input_buf input_size output_buf outs
   \<and> (\<forall>r estate' bytes'.
        encode_samples eenv estate samples num_frames bytes capacity = Inr (r, estate', bytes')
        \<longrightarrow> enc_packet estate' = enc_packet estate
          \<or> enc_packet estate' = Some blank_packet
          \<or> enc_packet estate' = Some (received_packet eenv))"
proof (intro conjI impI allI)
  fix r state' output_buf' outs'
  assume "decode_packet env state input_buf input_size output_buf outs
        = Inr (r, state', output_buf', outs')"
  from decode_packet_Inr [OF this]
  show "packet state' = Some \<lparr>pkt_data = input_buf, pkt_size = input_size\<rparr>"
    and "frame state' = frame state
            \<or> frame state' = map_option (\<lambda>f. blank_frame) (frame state)"
    by auto
next
  show "decode_packet env (state\<lparr>packet := Some q\<rparr>) input_buf input_size output_buf outs
       = decode_packet env (state\<lparr>packet := Some q'\<rparr>) input_buf input_size output_buf outs"
    by (simp add: decode_packet_def av_packet_unref_def ctx_field_def)
next
  fix r estate' bytes'
  assume "encode_samples eenv estate samples num_frames bytes capacity = Inr (r, estate', bytes')"
  from encode_samples_Inr [OF this]
  show "enc_packet estate' = enc_packet estate
          \<or> enc_packet estate' = Some blank_packet
          \<or> enc_packet estate' = Some (received_packet eenv)"
    by (cases "enc_packet estate") auto
qed

theorem session_pointers_after_call_witness:
  "decode_packet ex_decode_env ex_decoder 4096 768 [0, 0, 0, 0, 9] ex_outs
     = Inr (0, ex_decoder\<lparr>packet := Some \<lparr>pkt_data = 4096, pkt_size = 768\<rparr>\<rparr>,
            [1, 3, 2, 4, 9],
            \<lparr>out_frames = 2, out_sample_rate = 48000, out_channels = 2\<rparr>)
   \<and> frame (ex_decoder\<lparr>packet := Some \<lparr>pkt_data = 4096, pkt_size = 768\<rparr>\<rparr>) = frame ex_decoder
   \<and> encode_samples ex_encode_env ex_encoder [1, 3, 2, 4] 2 [0, 0, 0, 0] 4
     = Inr (3, ex_encoder\<lparr>enc_frame := Some ex_filled_frame\<rparr>, [10, 20, 30, 0])
   \<and> enc_packet (ex_encoder\<lparr>enc_frame := Some ex_filled_frame\<rparr>) = Some blank_packet"
  using session_pointers_after_call [where env = ex_decode_env and state = ex_decoder
      and input_buf = 4096 and input_size = 768 and output_buf = "[0, 0, 0, 0, 9]"
      and outs = ex_outs and eenv = ex_encode_env and estate = ex_encoder
      and samples = "[1, 3, 2, 4]" and num_frames = 2 and bytes = "[0, 0, 0, 0]"
      and capacity = 4]
    ex_decode ex_encode_short
  by (simp add: ex_decoder_def ex_encoder_def)

section \<open>Properties of creation and destruction\<close>

lemmas init_eval = init_decoder_def init_encoder_def Let_def avcodec_alloc_context3_def
  avcodec_open2_def av_channel_layout_default_def av_frame_alloc_def av_packet_alloc_def
  av_frame_get_buffer_def alloc_event_def AV_SAMPLE_FMT_FLTP_def

text \<open>
  C5. Unknown codec identifier: when the library has no decoder (no encoder) for
  \<open>codec_id\<close>, \<open>init_decoder\<close> (\<open>init_encoder\<close>) returns the null handle and the call
  has no allocation event at all.
\<close>

theorem init_unknown_codec:
  "(find_decoder env codec_id = None
      \<longrightarrow> init_decoder env codec_id sample_rate channels = Inr (None, []))
   \<and> (find_encoder env codec_id = None
      \<longrightarrow> init_encoder env codec_id sample_rate channels bitrate = Inr (None, []))"
  by (simp add: init_decoder_def init_encoder_def)

theorem init_unknown_codec_witness:
  "find_decoder ex_init_env 7 = None \<and> find_encoder ex_init_env 7 = None
   \<and> init_decoder ex_init_env 7 48000 2 = Inr (None, [])
   \<and> init_encoder ex_init_env 7 48000 2 192000 = Inr (None, [])"
  using init_unknown_codec [of ex_init_env 7 48000 2 192000]
  by (simp add: ex_init_env_def)

lemma init_decoder_Some:
  assumes "init_decoder env codec_id sample_rate channels = Inr (Some state, tr)"
  shows "\<exists>c. ctx state = Some c \<and> ctx_sample_rate c = sample_rate
     \<and> ctx_nb_channels c = channels \<and> ctx_is_open c \<and> 0 \<le> open_ret env
     \<and> frame state = av_frame_alloc env \<and> packet state = av_packet_alloc env
     \<and> tr = [Alloc SessionStruct, Alloc CodecContext]
            @ alloc_event FrameHolder (frame state) @ alloc_event PacketHolder (packet state)"
  using assms
  by (auto simp: init_decoder_def Let_def avcodec_alloc_context3_def avcodec_open2_def
        av_channel_layout_default_def
      split: option.splits if_splits prod.splits)

lemma init_decoder_None:
  assumes "init_decoder env codec_id sample_rate channels = Inr (None, tr)"
  shows "tr = [] \<and> find_decoder env codec_id = None
     \<or> tr = [Alloc SessionStruct, Alloc CodecContext, Release CodecContext, Release SessionStruct]
       \<and> open_ret env < 0"
  using assms
  by (auto simp: init_eval split: option.splits if_splits prod.splits)

lemma init_encoder_None:
  assumes "init_encoder env codec_id sample_rate channels bitrate = Inr (None, tr)"
  shows "tr = [] \<and> find_encoder env codec_id = None
     \<or> tr = [Alloc SessionStruct, Alloc CodecContext, Release CodecContext, Release SessionStruct]
       \<and> open_ret env < 0"
  using assms
  by (auto simp: init_eval split: option.splits if_splits prod.splits)

lemma init_encoder_Some:
  assumes "init_encoder env codec_id sample_rate channels bitrate = Inr (Some state, tr)"
  shows "\<exists>c f. enc_ctx state = Some c \<and> ctx_sample_rate c = sample_rate
     \<and> ctx_nb_channels c = channels \<and> ctx_bit_rate c = bitrate
     \<and> ctx_sample_fmt c = AV_SAMPLE_FMT_FLTP \<and> ctx_frame_size c = open_frame_size env
     \<and> ctx_is_open c \<and> 0 \<le> open_ret env \<and> frame_alloc_ok env
     \<and> enc_frame state = Some f
     \<and> nb_samples f = ctx_frame_size c \<and> nb_channels f = channels
     \<and> frame_sample_rate f = sample_rate \<and> frame_format f = AV_SAMPLE_FMT_FLTP
     \<and> extended_data f =
         (if get_buffer_ok env
          then replicate (nat channels) (replicate (nat (ctx_frame_size c)) 0)
               @ replicate (8 - nat channels) []
          else replicate 8 [])
     \<and> enc_packet state = av_packet_alloc env
     \<and> tr = [Alloc SessionStruct, Alloc CodecContext, Alloc FrameHolder]
            @ alloc_event PacketHolder (enc_packet state)"
  using assms
  by (auto simp: init_eval blank_frame_def split: option.splits if_splits prod.splits)

text \<open>
  When \<open>av_packet_alloc\<close> fails, \<open>init_decoder\<close> returns a session without a packet
  holder; when \<open>malloc\<close> fails, \<open>init_encoder\<close> dereferences the null pointer.
\<close>

theorem init_partial_session:
  "init_decoder (ex_init_env\<lparr>packet_alloc_ok := False\<rparr>) 86056 48000 2
     = Inr (Some (ex_created\<lparr>packet := None\<rparr>),
            [Alloc SessionStruct, Alloc CodecContext, Alloc FrameHolder])
   \<and> init_encoder (ex_init_env\<lparr>malloc_ok := False\<rparr>) 86056 48000 2 192000 = Inl NullDeref"
  by (simp add: ex_init_env_def ex_created_def init_eval)

text \<open>
  C6 (amended). Creation: a call of \<open>init_decoder\<close> or \<open>init_encoder\<close> that returns null
  leaves nothing allocated, and it returns null when \<open>avcodec_open2\<close> fails (the
  context and the session struct are then released). A returned session has an opened
  context; the results of the allocations are not checked, so its frame holder and
  packet holder are there exactly when \<open>av_frame_alloc\<close> and \<open>av_packet_alloc\<close>
  succeeded. The encoder's frame has \<open>nb_samples = frame_size\<close> and, when
  \<open>av_frame_get_buffer\<close> succeeded, a plane of \<open>frame_size\<close> samples for every channel.
\<close>

theorem init_creation_outcomes:
  "(\<forall>tr. init_decoder env codec_id sample_rate channels = Inr (None, tr) \<longrightarrow> live tr [] = [])
   \<and> (\<forall>tr. init_encoder env codec_id sample_rate channels bitrate = Inr (None, tr)
         \<longrightarrow> live tr [] = [])
   \<and> (\<forall>state tr. init_decoder env codec_id sample_rate channels = Inr (Some state, tr)
         \<longrightarrow> (\<exists>c. ctx state = Some c \<and> ctx_is_open c)
           \<and> (frame state \<noteq> None \<longleftrightarrow> frame_alloc_ok env)
           \<and> (packet state \<noteq> None \<longleftrightarrow> packet_alloc_ok env))
   \<and> (\<forall>state tr. init_encoder env codec_id sample_rate channels bitrate = Inr (Some state, tr)
         \<longrightarrow> (\<exists>c f. enc_ctx state = Some c \<and> ctx_is_open c
                \<and> enc_frame state = Some f \<and> nb_samples f = ctx_frame_size c
                \<and> (get_buffer_ok env \<longrightarrow>
                     (\<forall>ch. 0 \<le> ch \<and> ch < channels \<longrightarrow>
                        rd (extended_data f) ch
                          = Inr (replicate (nat (ctx_frame_size c)) 0))))
           \<and> (enc_packet state \<noteq> None \<longleftrightarrow> packet_alloc_ok env))
   \<and> (malloc_ok env \<and> alloc_context_ok env \<and> open_ret env < 0
         \<longrightarrow> (\<exists>tr. init_decoder env codec_id sample_rate channels = Inr (None, tr))
           \<and> (\<exists>tr. init_encoder env codec_id sample_rate channels bitrate = Inr (None, tr)))"
proof (intro conjI impI allI)
  fix tr assume "init_decoder env codec_id sample_rate channels = Inr (None, tr)"
  from init_decoder_None [OF this] show "live tr [] = []" by auto
next
  fix tr assume "init_encoder env codec_id sample_rate channels bitrate = Inr (None, tr)"
  from init_encoder_None [OF this] show "live tr [] = []" by auto
next
  fix state tr
  assume "init_decoder env codec_id sample_rate channels = Inr (Some state, tr)"
  from init_decoder_Some [OF this]
  show "\<exists>c. ctx state = Some c \<and> ctx_is_open c"
    and "frame state \<noteq> None \<longleftrightarrow> frame_alloc_ok env"
    and "packet state \<noteq> None \<longleftrightarrow> packet_alloc_ok env"
    by (auto simp: av_frame_alloc_def av_packet_alloc_def split: if_splits)
next
  fix state tr
  assume "init_encoder env codec_id sample_rate channels bitrate = Inr (Some state, tr)"
  from init_encoder_Some [OF this]
  obtain c f where cf: "enc_ctx state = Some c" "ctx_is_open c" "enc_frame state = Some f"
      "nb_samples f = ctx_frame_size c"
    and planes: "extended_data f =
         (if get_buffer_ok env
          then replicate (nat channels) (replicate (nat (ctx_frame_size c)) 0)
               @ replicate (8 - nat channels) []
          else replicate 8 [])"
    and pk: "enc_packet state = av_packet_alloc env"
    by blast
  have "rd (extended_data f) ch = Inr (replicate (nat (ctx_frame_size c)) 0)"
    if "get_buffer_ok env" "0 \<le> ch \<and> ch < channels" for ch
  proof -
    have "nat ch < nat channels" using that by simp
    then show ?thesis using that planes by (simp add: rd_def nth_append)
  qed
  with cf show "\<exists>c f. enc_ctx state = Some c \<and> ctx_is_open c
                \<and> enc_frame state = Some f \<and> nb_samples f = ctx_frame_size c
                \<and> (get_buffer_ok env \<longrightarrow>
                     (\<forall>ch. 0 \<le> ch \<and> ch < channels \<longrightarrow>
                        rd (extended_data f) ch
                          = Inr (replicate (nat (ctx_frame_size c)) 0)))"
    by blast
  from pk show "enc_packet state \<noteq> None \<longleftrightarrow> packet_alloc_ok env"
    by (simp add: av_packet_alloc_def)
next
  assume "malloc_ok env \<and> alloc_context_ok env \<and> open_ret env < 0"
  then show "\<exists>tr. init_decoder env codec_id sample_rate channels = Inr (None, tr)"
    and "\<exists>tr. init_encoder env codec_id sample_rate channels bitrate = Inr (None, tr)"
    by (auto simp: init_eval split: option.splits)
qed

lemma ex_init_encoder:
  "init_encoder (ex_init_env\<lparr>open_frame_size := 3\<rparr>) 86056 48000 2 192000
     = Inr (Some ex_encoder,
            [Alloc SessionStruct, Alloc CodecContext, Alloc FrameHolder, Alloc PacketHolder])"
  by (simp add: ex_init_env_def ex_enc_defs init_eval blank_frame_def blank_packet_def
        eval_nat_numeral)

theorem init_creation_outcomes_witness:
  "init_decoder (ex_init_env\<lparr>open_ret := -22\<rparr>) 86056 48000 2
     = Inr (None, [Alloc SessionStruct, Alloc CodecContext,
                   Release CodecContext, Release SessionStruct])
   \<and> live [Alloc SessionStruct, Alloc CodecContext,
            Release CodecContext, Release SessionStruct] [] = []
   \<and> init_encoder (ex_init_env\<lparr>open_ret := -22\<rparr>) 86056 48000 2 192000
     = Inr (None, [Alloc SessionStruct, Alloc CodecContext,
                   Release CodecContext, Release SessionStruct])
   \<and> init_decoder ex_init_env 86056 48000 2
     = Inr (Some ex_created,
            [Alloc SessionStruct, Alloc CodecContext, Alloc FrameHolder, Alloc PacketHolder])
   \<and> init_encoder (ex_init_env\<lparr>open_frame_size := 3\<rparr>) 86056 48000 2 192000
     = Inr (Some ex_encoder,
            [Alloc SessionStruct, Alloc CodecContext, Alloc FrameHolder, Alloc PacketHolder])
   \<and> rd (extended_data ex_enc_frame) 1 = Inr (replicate (nat 3) 0)"
  using
    init_creation_outcomes [of "ex_init_env\<lparr>open_ret := -22\<rparr>" 86056 48000 2 192000]
    init_creation_outcomes [of ex_init_env 86056 48000 2 192000]
    init_creation_outcomes [of "ex_init_env\<lparr>open_frame_size := 3\<rparr>" 86056 48000 2 192000]
    ex_init_encoder
  by (simp add: ex_init_env_def ex_created_def ex_enc_frame_def init_eval rd_def
        numeral_3_eq_3)

text \<open>
  C9. Destruction safety: \<open>close_decoder\<close> and \<open>close_encoder\<close> on the null handle do
  nothing. On a session, the frame holder, the packet holder and the codec context are
  released exactly when they are not null, each at most once, nothing is allocated,
  and the release of the session struct is the last event.
\<close>

theorem close_safety:
  "close_decoder None = [] \<and> close_encoder None = []
   \<and> last (close_decoder (Some s)) = Release SessionStruct
   \<and> distinct (close_decoder (Some s))
   \<and> Alloc r \<notin> set (close_decoder (Some s))
   \<and> (Release FrameHolder \<in> set (close_decoder (Some s)) \<longleftrightarrow> frame s \<noteq> None)
   \<and> (Release PacketHolder \<in> set (close_decoder (Some s)) \<longleftrightarrow> packet s \<noteq> None)
   \<and> (Release CodecContext \<in> set (close_decoder (Some s)) \<longleftrightarrow> ctx s \<noteq> None)
   \<and> last (close_encoder (Some e)) = Release SessionStruct
   \<and> distinct (close_encoder (Some e))
   \<and> Alloc r \<notin> set (close_encoder (Some e))
   \<and> (Release FrameHolder \<in> set (close_encoder (Some e)) \<longleftrightarrow> enc_frame e \<noteq> None)
   \<and> (Release PacketHolder \<in> set (close_encoder (Some e)) \<longleftrightarrow> enc_packet e \<noteq> None)
   \<and> (Release CodecContext \<in> set (close_encoder (Some e)) \<longleftrightarrow> enc_ctx e \<noteq> None)"
  by (simp add: close_decoder_def close_encoder_def release_event_def split: option.splits)

theorem close_safety_witness:
  "close_decoder (Some (ex_created\<lparr>packet := None\<rparr>))
     = [Release FrameHolder, Release CodecContext, Release SessionStruct]
   \<and> close_encoder (Some ex_encoder)
     = [Release FrameHolder, Release PacketHolder, Release CodecContext, Release SessionStruct]
   \<and> Release PacketHolder \<notin> set (close_decoder (Some (ex_created\<lparr>packet := None\<rparr>)))
   \<and> last (close_encoder (Some ex_encoder)) = Release SessionStruct"
  using close_safety [of "ex_created\<lparr>packet := None\<rparr>" SessionStruct ex_encoder]
  by (simp add: close_decoder_def close_encoder_def release_event_def ex_created_def
        ex_encoder_def)

end
